theory Spec2Isabelle
  imports Main "HOL-Library.AList" "HOL-Library.Sublist" "HOL-Library.Multiset"
begin

section \<open>The container lifecycle of bypy/linux.py\<close>

text \<open>
  The module drives external programs (sudo mount, sudo umount, sudo chroot, truncate)
  and reads the host (the mount table, the file system, the user database). The
  embedding passes an explicit \<open>world\<close> through every function: the paths that exist,
  the lines of /proc/self/mountinfo (and whether its bytes fail to decode as UTF-8),
  the function attribute \<open>mount_image.mounted\<close>, the exit statuses the next child
  processes will return, and the log of the child processes run so far. An exception is
  a value of \<open>exc\<close>; a function that may raise returns \<open>exc + 'a\<close> together with the
  world it leaves behind.
\<close>

subsection \<open>Exceptions\<close>

datatype exc =
    SystemExit int
  | SystemExitMsg string
  | AttributeError
  | ValueError
  | UnicodeDecodeError
  | IndexError
  | KeyError
  | FileNotFoundError
  | FileExistsError
  | CalledProcessError int
  | URLError

text \<open>
  \<open>isinstance(e, Exception)\<close>: in Python SystemExit derives from BaseException, not
  from Exception, so \<open>except Exception\<close> lets it pass.
\<close>

fun is_Exception :: "exc \<Rightarrow> bool" where
  "is_Exception (SystemExit n) = False"
| "is_Exception (SystemExitMsg m) = False"
| "is_Exception e = True"

subsection \<open>Strings and paths of the standard library\<close>

text \<open>
  \<open>str.isspace\<close> on the code points below 256, the characters a \<open>string\<close> of HOL holds.
\<close>

definition is_space :: "char \<Rightarrow> bool" where
  "is_space c \<longleftrightarrow>
     c \<in> set [CHR 0x20, CHR 0x09, CHR 0x0A, CHR 0x0B, CHR 0x0C, CHR 0x0D,
              CHR 0x1C, CHR 0x1D, CHR 0x1E, CHR 0x1F, CHR 0x85, CHR 0xA0]"

text \<open>\<open>str.split()\<close> with no separator: the maximal runs of non-blank characters.\<close>

fun split_acc :: "string \<Rightarrow> string \<Rightarrow> string list" where
  "split_acc cur [] = (if cur = [] then [] else [cur])"
| "split_acc cur (c # cs) =
     (if is_space c then (if cur = [] then [] else [cur]) @ split_acc [] cs
      else split_acc (cur @ [c]) cs)"

definition split_ws :: "string \<Rightarrow> string list" where
  "split_ws s = split_acc [] s"

text \<open>\<open>str.lstrip('/')\<close>.\<close>

definition lstrip_slash :: "string \<Rightarrow> string" where
  "lstrip_slash s = dropWhile (\<lambda>c. c = CHR ''/'') s"

text \<open>\<open>os.path.join\<close> of posixpath, for two components.\<close>

definition path_join :: "string \<Rightarrow> string \<Rightarrow> string" where
  "path_join a b =
     (if prefix ''/'' b then b
      else if a = [] \<or> suffix ''/'' a then a @ b
      else a @ ''/'' @ b)"

text \<open>\<open>s.startswith(p)\<close> is \<open>prefix p s\<close>; \<open>x in s\<close> on strings is \<open>sublist x s\<close>.\<close>

subsection \<open>The host, the module's globals and the world\<close>

text \<open>
  What the program reads from the host and never changes: the user database entry of
  the effective uid, the ids, the working directory, the TERM variable, the directory of
  this module (\<open>os.path.dirname(os.path.abspath(__file__))\<close>), the output of infocmp,
  whether a URL can be fetched, and \<open>os.path.abspath(os.path.realpath(p))\<close> as the
  function \<open>h_resolve\<close>. Two more functions are parameters: \<open>h_fs p\<close> is what the kernel
  knows of a path the program binds into the container, namely the path of \<open>p\<close> inside
  the file system that holds it, the type of that file system and its source; and
  \<open>h_format t a\<close> is \<open>t.format(a)\<close> of the standard library, which raises for a template
  with a field that one positional argument does not fill.
\<close>

record host =
  h_user :: string
  h_euid :: nat
  h_egid :: nat
  h_cwd :: string
  h_term :: "string option"
  h_base :: string
  h_infocmp :: string
  h_fetch :: "string \<Rightarrow> bool"
  h_resolve :: "string \<Rightarrow> string"
  h_fs :: "string \<Rightarrow> string \<times> string \<times> string"
  h_format :: "string \<Rightarrow> string \<Rightarrow> exc + string"

datatype deps = DepsStr string | DepsList "string list"

text \<open>
  The module-level variables \<open>arch\<close>, \<open>img_path\<close>, \<open>img_store_path\<close>, \<open>sw_dir\<close>,
  \<open>sources_dir\<close> and the two keys of \<open>conf\<close> the module reads (a missing key is None).
\<close>

record globals =
  arch :: string
  img_path :: string
  img_store_path :: string
  sw_dir :: string
  sources_dir :: string
  conf_image :: "string option"
  conf_deps :: "deps option"

text \<open>
  A child process that was run: its argument vector, the environment passed to Popen
  (None when the child inherits the parent's) and its exit status.
\<close>

type_synonym proc = "string list \<times> (string \<times> string) list option \<times> int"

record world =
  files :: "string set"
  mountinfo :: "string list"
  undecodable :: bool
  mounted :: bool
  pending :: "int list"
  log :: "proc list"

type_synonym 'a action = "world \<Rightarrow> (exc + 'a) \<times> world"

definition return_a :: "'a \<Rightarrow> 'a action" where
  "return_a x w = (Inr x, w)"

definition raise_a :: "exc \<Rightarrow> 'a action" where
  "raise_a e w = (Inl e, w)"

definition bind_a :: "'a action \<Rightarrow> ('a \<Rightarrow> 'b action) \<Rightarrow> 'b action" where
  "bind_a m k w = (case m w of (Inl e, w1) \<Rightarrow> (Inl e, w1) | (Inr x, w1) \<Rightarrow> k x w1)"

definition seq_a :: "unit action \<Rightarrow> 'b action \<Rightarrow> 'b action" where
  "seq_a m k = bind_a m (\<lambda>_. k)"

fun steps :: "unit action list \<Rightarrow> unit action" where
  "steps [] = return_a ()"
| "steps (m # ms) = seq_a m (steps ms)"

definition when_a :: "bool \<Rightarrow> unit action \<Rightarrow> unit action" where
  "when_a b m = (if b then m else return_a ())"

definition modify_a :: "(world \<Rightarrow> world) \<Rightarrow> unit action" where
  "modify_a f w = (Inr (), f w)"

subsection \<open>The mount table and the external programs\<close>

text \<open>
  The kernel writes a blank, a tab, a newline and a backslash of a path as a backslash
  followed by the three octal digits of the character.
\<close>

definition mangle :: "string \<Rightarrow> string" where
  "mangle s =
     concat (map (\<lambda>c. if c = CHR 0x20 then CHR 0x5C # ''040''
                       else if c = CHR 0x09 then CHR 0x5C # ''011''
                       else if c = CHR 0x0A then CHR 0x5C # ''012''
                       else if c = CHR 0x5C then CHR 0x5C # ''134''
                       else [c]) s)"

text \<open>
  A line of /proc/self/mountinfo as the kernel writes it for a mount: mount id, parent
  id, device, root (the directory of the file system that is mounted), mount point,
  options, the separator, file system type, source and super options. The program reads
  the fourth and fifth field only; the model fills the ids, the device and the options
  with placeholders.
\<close>

definition mountinfo_line :: "string \<Rightarrow> string \<Rightarrow> string \<Rightarrow> string \<Rightarrow> string" where
  "mountinfo_line root mp fstype source =
     ''0 0 0:0 '' @ mangle root @ '' '' @ mangle mp @ '' rw - '' @ mangle fstype @ '' ''
       @ mangle source @ '' rw''"


text \<open>
  \<open>parts = line.split(); src, dest = parts[3:5]\<close>: the fourth and fifth field of a
  line. The slice of a line with fewer than five fields has fewer than two elements and
  the unpacking raises ValueError: that is None here.
\<close>

definition line_fields :: "string \<Rightarrow> (string \<times> string) option" where
  "line_fields l =
     (case drop 3 (take 5 (split_ws l)) of [src, dest] \<Rightarrow> Some (src, dest) | _ \<Rightarrow> None)"

text \<open>The mount point of a line, resolved as \<open>get_mounts\<close> resolves it.\<close>

definition line_dest :: "host \<Rightarrow> string \<Rightarrow> string option" where
  "line_dest h l = map_option (\<lambda>(src, dest). h_resolve h dest) (line_fields l)"

fun remove_first :: "('a \<Rightarrow> bool) \<Rightarrow> 'a list \<Rightarrow> 'a list" where
  "remove_first P [] = []"
| "remove_first P (x # xs) = (if P x then xs else x # remove_first P xs)"

definition remove_last :: "('a \<Rightarrow> bool) \<Rightarrow> 'a list \<Rightarrow> 'a list" where
  "remove_last P xs = rev (remove_first P (rev xs))"

definition add_mount :: "string \<Rightarrow> string \<Rightarrow> string \<Rightarrow> string \<Rightarrow> world \<Rightarrow> world" where
  "add_mount root mp fstype source w =
     w\<lparr>mountinfo := mountinfo w @ [mountinfo_line root mp fstype source]\<rparr>"

text \<open>
  umount detaches the most recent mount at the path: the last line of the table whose
  mount point, read as \<open>get_mounts\<close> reads it, is the path. The table lists the mounts in
  the order they were made.
\<close>

definition del_mount :: "host \<Rightarrow> string \<Rightarrow> world \<Rightarrow> world" where
  "del_mount h mp w =
     w\<lparr>mountinfo := remove_last (\<lambda>l. line_dest h l = Some mp) (mountinfo w)\<rparr>"

text \<open>
  The lazy unmount, umount -l, detaches the most recent mount at the path together with
  everything mounted in it: the lines after it whose mount point lies below the path.
  (A line below the path that comes before it belongs to a mount that this one covers,
  and stays.) When nothing is mounted at the path the table is unchanged.
\<close>

definition path_below :: "string \<Rightarrow> string \<Rightarrow> bool" where
  "path_below p d \<longleftrightarrow> d \<noteq> p \<and> prefix (if suffix ''/'' p then p else p @ ''/'') d"

fun detach_rev :: "('a \<Rightarrow> bool) \<Rightarrow> ('a \<Rightarrow> bool) \<Rightarrow> 'a list \<Rightarrow> 'a list" where
  "detach_rev P B [] = []"
| "detach_rev P B (x # xs) =
     (if P x then xs else if B x then detach_rev P B xs else x # detach_rev P B xs)"

definition detach_last :: "('a \<Rightarrow> bool) \<Rightarrow> ('a \<Rightarrow> bool) \<Rightarrow> 'a list \<Rightarrow> 'a list" where
  "detach_last P B xs = (if \<exists>x \<in> set xs. P x then rev (detach_rev P B (rev xs)) else xs)"

definition line_below :: "host \<Rightarrow> string \<Rightarrow> string \<Rightarrow> bool" where
  "line_below h mp l = (case line_dest h l of None \<Rightarrow> False | Some d \<Rightarrow> path_below mp d)"

definition del_mount_lazy :: "host \<Rightarrow> string \<Rightarrow> world \<Rightarrow> world" where
  "del_mount_lazy h mp w =
     w\<lparr>mountinfo := detach_last (\<lambda>l. line_dest h l = Some mp) (line_below h mp) (mountinfo w)\<rparr>"

text \<open>
  What a child process that exits with status 0 does to the world, for the programs
  whose effect the module relies on: mount adds a line to the mount table, umount
  removes lines, truncate creates the file, rm -rf removes the path and everything below
  it. Every other program leaves the paths and mounts the module looks at unchanged.
  A mount of a file system has the root / of that file system; a bind mount has the
  root, the type and the source that the kernel knows for the bound path; the image file
  is mounted through a loop device.
\<close>

definition sys_effect :: "host \<Rightarrow> string list \<Rightarrow> world \<Rightarrow> world" where
  "sys_effect h argv w =
     (case argv of
        [a, b, c, d, e, f] \<Rightarrow>
          if [a, b, c] = [''sudo'', ''mount'', ''-t''] then add_mount ''/'' f d e w else w
      | [a, b, c, d, e] \<Rightarrow>
          if [a, b, c] = [''sudo'', ''mount'', ''--bind'']
          then (case h_fs h d of (root, fstype, source) \<Rightarrow> add_mount root e fstype source w)
          else w
      | [a, b, c, d] \<Rightarrow>
          if [a, b, c] = [''sudo'', ''umount'', ''-l''] then del_mount_lazy h d w
          else if [a, b, c] = [''sudo'', ''rm'', ''-rf'']
            then w\<lparr>files := {p \<in> files w. \<not> (p = d \<or> prefix (d @ ''/'') p)}\<rparr>
          else if [a, b] = [''truncate'', ''-s''] then w\<lparr>files := insert d (files w)\<rparr>
          else if [a, b] = [''sudo'', ''mount''] then add_mount ''/'' d ''ext4'' ''/dev/loop0'' w
          else w
      | [a, b, c] \<Rightarrow>
          if [a, b] = [''sudo'', ''umount''] then del_mount h c w else w
      | _ \<Rightarrow> w)"

text \<open>
  \<open>subprocess.Popen(argv, env=env).wait()\<close>: the child takes the next pending exit
  status (0 when none is pending), is logged, and has its effect when it exits with 0.
\<close>

definition next_status :: "world \<Rightarrow> int" where
  "next_status w = (case pending w of [] \<Rightarrow> 0 | s # _ \<Rightarrow> s)"

definition spawn :: "host \<Rightarrow> string list \<Rightarrow> (string \<times> string) list option \<Rightarrow> world \<Rightarrow> int \<times> world" where
  "spawn h argv env w =
     (let s = next_status w;
          w1 = w\<lparr>pending := drop 1 (pending w), log := log w @ [(argv, env, s)]\<rparr>
      in (s, if s = 0 then sys_effect h argv w1 else w1))"

text \<open>
  Modelled from the spec: \<open>call\<close> of bypy/utils.py, which is not among the sources.
  The Privileged Executor "runs a command ..., synchronously, surfacing non-zero exit
  as a fatal error", the fatal error being the process termination that carries the
  status. Echoing the command is not modelled.
\<close>

definition call :: "host \<Rightarrow> string list \<Rightarrow> unit action" where
  "call h argv w =
     (case spawn h argv None w of (ret, w1) \<Rightarrow>
        if ret \<noteq> 0 then (Inl (SystemExit ret), w1) else (Inr (), w1))"

subsection \<open>Image Store: mount\_image and unmount\_image\<close>

text \<open>
  \<^verbatim>\<open>
  def mount_image():
      if not hasattr(mount_image, 'mounted'):
          call('sudo', 'mount', img_store_path, img_path)
      mount_image.mounted = True
  \<close>
\<close>

definition mount_image :: "host \<Rightarrow> globals \<Rightarrow> unit action" where
  "mount_image h g =
     seq_a (\<lambda>w. when_a (\<not> mounted w)
                   (call h [''sudo'', ''mount'', img_store_path g, img_path g]) w)
           (modify_a (\<lambda>w. w\<lparr>mounted := True\<rparr>))"

text \<open>
  \<^verbatim>\<open>
  def unmount_image():
      if hasattr(mount_image, 'mounted'):
          call('sudo', 'umount', img_path)
          del mount_image.mounted
  \<close>
\<close>

definition unmount_image :: "host \<Rightarrow> globals \<Rightarrow> unit action" where
  "unmount_image h g w =
     when_a (mounted w)
       (seq_a (call h [''sudo'', ''umount'', img_path g])
              (modify_a (\<lambda>w. w\<lparr>mounted := False\<rparr>))) w"

subsection \<open>More of the standard library\<close>

text \<open>\<open>'{}'.format(n)\<close> for a non-negative integer: its decimal digits.\<close>

fun string_of_nat :: "nat \<Rightarrow> string" where
  "string_of_nat n =
     (if n < 10 then [char_of (48 + n)]
      else string_of_nat (n div 10) @ [char_of (48 + n mod 10)])"

declare string_of_nat.simps [simp del]

text \<open>
  \<open>s.splitlines()[0]\<close>: the text before the first line boundary; the empty string has
  no line and the index raises.
\<close>

definition is_linebreak :: "char \<Rightarrow> bool" where
  "is_linebreak c \<longleftrightarrow>
     c \<in> set [CHR 0x0A, CHR 0x0B, CHR 0x0C, CHR 0x0D, CHR 0x1C, CHR 0x1D, CHR 0x1E, CHR 0x85]"

definition first_line :: "string \<Rightarrow> exc + string" where
  "first_line s = (if s = [] then Inl IndexError else Inr (takeWhile (\<lambda>c. \<not> is_linebreak c) s))"

text \<open>\<open>s.partition(':')[2]\<close>: what follows the first colon, empty when there is none.\<close>

definition after_colon :: "string \<Rightarrow> string" where
  "after_colon s = drop 1 (dropWhile (\<lambda>c. c \<noteq> CHR '':'') s)"

text \<open>\<open>s.strip()\<close>.\<close>

definition strip :: "string \<Rightarrow> string" where
  "strip s = rev (dropWhile is_space (rev (dropWhile is_space s)))"

text \<open>\<open>os.path.basename\<close> and \<open>os.path.dirname\<close> of posixpath.\<close>

definition basename :: "string \<Rightarrow> string" where
  "basename p = rev (takeWhile (\<lambda>c. c \<noteq> CHR ''/'') (rev p))"

definition dirname :: "string \<Rightarrow> string" where
  "dirname p =
     (let head = rev (dropWhile (\<lambda>c. c \<noteq> CHR ''/'') (rev p))
      in if head \<noteq> [] \<and> \<not> (\<forall>c \<in> set head. c = CHR ''/'')
         then rev (dropWhile (\<lambda>c. c = CHR ''/'') (rev head)) else head)"

text \<open>
  \<open>shlex.split(s)\<close>: the POSIX lexer with whitespace splitting and no comments. The
  lexer is between tokens, inside a word, inside a quotation, or behind a backslash
  (met in a word, or in a double quotation). None is the ValueError of an open
  quotation or a trailing backslash.
\<close>

datatype lexstate = LSpace | LWord | LQuote char | LEsc "char option"

definition shlex_ws :: "char \<Rightarrow> bool" where
  "shlex_ws c \<longleftrightarrow> c \<in> set [CHR 0x20, CHR 0x09, CHR 0x0D, CHR 0x0A]"

definition shlex_quote :: "char \<Rightarrow> bool" where
  "shlex_quote c \<longleftrightarrow> c = CHR 0x27 \<or> c = CHR 0x22"

fun shlex_go :: "lexstate \<Rightarrow> string \<Rightarrow> bool \<Rightarrow> string \<Rightarrow> string list option" where
  "shlex_go LSpace tok q [] = Some []"
| "shlex_go LWord tok q [] = Some (if tok \<noteq> [] \<or> q then [tok] else [])"
| "shlex_go (LQuote qc) tok q [] = None"
| "shlex_go (LEsc e) tok q [] = None"
| "shlex_go LSpace tok q (c # cs) =
     (if shlex_ws c then shlex_go LSpace [] False cs
      else if c = CHR 0x5C then shlex_go (LEsc None) [] False cs
      else if shlex_quote c then shlex_go (LQuote c) [] True cs
      else shlex_go LWord [c] False cs)"
| "shlex_go LWord tok q (c # cs) =
     (if shlex_ws c then
        (if tok \<noteq> [] \<or> q then map_option (\<lambda>ts. tok # ts) (shlex_go LSpace [] False cs)
         else shlex_go LSpace [] False cs)
      else if shlex_quote c then shlex_go (LQuote c) tok True cs
      else if c = CHR 0x5C then shlex_go (LEsc None) tok q cs
      else shlex_go LWord (tok @ [c]) q cs)"
| "shlex_go (LQuote qc) tok q (c # cs) =
     (if c = qc then shlex_go LWord tok True cs
      else if c = CHR 0x5C \<and> qc = CHR 0x22 then shlex_go (LEsc (Some qc)) tok True cs
      else shlex_go (LQuote qc) (tok @ [c]) True cs)"
| "shlex_go (LEsc None) tok q (c # cs) = shlex_go LWord (tok @ [c]) q cs"
| "shlex_go (LEsc (Some qc)) tok q (c # cs) =
     shlex_go (LQuote qc) ((if c \<noteq> CHR 0x5C \<and> c \<noteq> qc then tok @ [CHR 0x5C] else tok) @ [c]) q cs"

definition shlex_split :: "string \<Rightarrow> string list option" where
  "shlex_split s = shlex_go LSpace [] False s"

subsection \<open>Chroot Command Runner\<close>

text \<open>
  \<^verbatim>\<open>
  def copy_terminfo():
      raw = subprocess.check_output(['infocmp']).decode('utf-8').splitlines()[0]
      path = raw.partition(':')[2].strip()
      if path and os.path.exists(path):
          bdir = os.path.basename(os.path.dirname(path))
          dest = os.path.join(img_path, 'usr/share/terminfo', bdir)
          call('sudo', 'mkdir', '-p', dest, echo=False)
          call('sudo', 'cp', '-a', path, dest, echo=False)
  \<close>
  \<open>check_output\<close> raises CalledProcessError when infocmp exits with a non-zero status.
\<close>

definition check_output_infocmp :: "host \<Rightarrow> string action" where
  "check_output_infocmp h w =
     (case spawn h [''infocmp''] None w of (ret, w1) \<Rightarrow>
        if ret \<noteq> 0 then (Inl (CalledProcessError ret), w1) else (Inr (h_infocmp h), w1))"

definition copy_terminfo :: "host \<Rightarrow> globals \<Rightarrow> unit action" where
  "copy_terminfo h g =
     bind_a (check_output_infocmp h) (\<lambda>out.
       case first_line out of
         Inl e \<Rightarrow> raise_a e
       | Inr raw \<Rightarrow>
           (let path = strip (after_colon raw) in
            (\<lambda>w. when_a (path \<noteq> [] \<and> path \<in> files w)
               (let bdir = basename (dirname path);
                    dest = path_join (path_join (img_path g) ''usr/share/terminfo'') bdir
                in steps [call h [''sudo'', ''mkdir'', ''-p'', dest],
                          call h [''sudo'', ''cp'', ''-a'', path, dest]]) w)))"

text \<open>The argument of \<open>chroot\<close>: a command line to be split, or an argument list.\<close>

datatype cmd = CmdStr string | CmdList "string list"

text \<open>
  Lines 82 to 90 of \<open>chroot\<close>: the environment, a dict in insertion order.
  \<^verbatim>\<open>
      env = {
          'PATH': '/sbin:/usr/sbin:/usr/local/bin:/bin:/usr/bin',
          'HOME': '/root' if as_root else '/home/' + user,
          'USER': 'root' if as_root else user,
          'TERM': os.environ.get('TERM', 'xterm-256color'),
          'BYPY_ARCH': f'{arch}-bit',
      }
      if for_install:
          env['DEBIAN_FRONTEND'] = 'noninteractive'
  \<close>
\<close>

definition chroot_env :: "host \<Rightarrow> globals \<Rightarrow> bool \<Rightarrow> bool \<Rightarrow> (string \<times> string) list" where
  "chroot_env h g as_root for_install =
     [(''PATH'', ''/sbin:/usr/sbin:/usr/local/bin:/bin:/usr/bin''),
      (''HOME'', if as_root then ''/root'' else ''/home/'' @ h_user h),
      (''USER'', if as_root then ''root'' else h_user h),
      (''TERM'', case h_term h of None \<Rightarrow> ''xterm-256color'' | Some t \<Rightarrow> t),
      (''BYPY_ARCH'', arch g @ ''-bit'')]
     @ (if for_install then [(''DEBIAN_FRONTEND'', ''noninteractive'')] else [])"

text \<open>
  Lines 91 to 97 of \<open>chroot\<close>: the argument vector of the child.
  \<^verbatim>\<open>
      us = [] if as_root else ['--userspec={}:{}'.format(
          os.geteuid(), os.getegid())]
      as_arch = ['linux{}'.format(arch), '--']
      env_cmd = ['env']
      for k, v in env.items():
          env_cmd += [f'{k}={v}']
      cmd = ['sudo', 'chroot'] + us + [img_path] + as_arch + env_cmd + list(cmd)
  \<close>
\<close>

definition chroot_argv ::
  "host \<Rightarrow> globals \<Rightarrow> bool \<Rightarrow> (string \<times> string) list \<Rightarrow> string list \<Rightarrow> string list" where
  "chroot_argv h g as_root env cmd =
     (let us = (if as_root then []
                else [''--userspec='' @ string_of_nat (h_euid h) @ '':'' @ string_of_nat (h_egid h)]);
          as_arch = [''linux'' @ arch g, ''--''];
          env_cmd = ''env'' # map (\<lambda>(k, v). k @ ''='' @ v) env
      in [''sudo'', ''chroot''] @ us @ [img_path g] @ as_arch @ env_cmd @ cmd)"

text \<open>
  \<^verbatim>\<open>
  def chroot(cmd, as_root=True, for_install=False):
      if isinstance(cmd, str):
          cmd = shlex.split(cmd)
      print_cmd(['in-chroot'] + cmd)
      user = pwd.getpwuid(os.geteuid()).pw_name
      ...
      copy_terminfo()
      call('sudo', 'cp', '/etc/resolv.conf',
           os.path.join(img_path, 'etc'), echo=False)
      ret = subprocess.Popen(cmd, env=env).wait()
      if ret != 0:
          raise SystemExit(ret)
  \<close>
  Printing the command is not modelled.
\<close>

definition cmd_args :: "cmd \<Rightarrow> string list option" where
  "cmd_args cmd = (case cmd of CmdStr s \<Rightarrow> shlex_split s | CmdList xs \<Rightarrow> Some xs)"

definition chroot :: "host \<Rightarrow> globals \<Rightarrow> cmd \<Rightarrow> bool \<Rightarrow> bool \<Rightarrow> unit action" where
  "chroot h g cmd as_root for_install =
     (case cmd_args cmd of
        None \<Rightarrow> raise_a ValueError
      | Some args \<Rightarrow>
          (let env = chroot_env h g as_root for_install;
               argv = chroot_argv h g as_root env args
           in steps
                [copy_terminfo h g,
                 call h [''sudo'', ''cp'', ''/etc/resolv.conf'', path_join (img_path g) ''etc''],
                 (\<lambda>w. case spawn h argv (Some env) w of (ret, w1) \<Rightarrow>
                         if ret \<noteq> 0 then (Inl (SystemExit ret), w1) else (Inr (), w1))]))"

subsection \<open>Mount Table Reader\<close>

text \<open>
  \<^verbatim>\<open>
  def get_mounts():
      ans = {}
      lines = open('/proc/self/mountinfo', 'rb').read().decode(
              'utf-8').splitlines()
      for line in lines:
          parts = line.split()
          src, dest = parts[3:5]
          ans[os.path.abspath(os.path.realpath(dest))] = src
      return ans
  \<close>
  A dict keeps its keys in the order of their first insertion and a later assignment
  to a key replaces the value in place, as \<open>AList.update\<close> does on an association list.
  \<open>decode\<close> is strict: it raises UnicodeDecodeError when the bytes of the table are not
  valid UTF-8, before any line is read.
\<close>

type_synonym dict = "(string \<times> string) list"

fun get_mounts_loop :: "host \<Rightarrow> string list \<Rightarrow> dict \<Rightarrow> exc + dict" where
  "get_mounts_loop h [] ans = Inr ans"
| "get_mounts_loop h (line # lines) ans =
     (case line_fields line of
        None \<Rightarrow> Inl ValueError
      | Some (src, dest) \<Rightarrow> get_mounts_loop h lines (AList.update (h_resolve h dest) src ans))"

definition get_mounts :: "host \<Rightarrow> world \<Rightarrow> exc + dict" where
  "get_mounts h w =
     (if undecodable w then Inl UnicodeDecodeError else get_mounts_loop h (mountinfo w) [])"

subsection \<open>Mount Orchestrator: umount\_all\<close>

text \<open>
  \<^verbatim>\<open>
  def umount_all():
      found = True
      while found:
          found = False
          for mp in sorted(get_mounts(), key=len, reverse=True):
              if mp.startswith(img_path) and '/chroot/src/' not in mp:
                  call('sudo', 'umount', '-l', mp, echo=False)
                  found = True
                  break
      del mount_image.mounted
  \<close>
  \<open>sorted\<close> is stable, also with \<open>reverse=True\<close>: keys of equal length keep the order of
  the dict. One round of the while loop takes the first key of the sorted list that
  passes the test, unmounts it and starts the next round; the loop ends with the round
  that finds none.
\<close>

definition selected :: "globals \<Rightarrow> string \<Rightarrow> bool" where
  "selected g mp \<longleftrightarrow> prefix (img_path g) mp \<and> \<not> sublist ''/chroot/src/'' mp"

definition by_length_desc :: "string list \<Rightarrow> string list" where
  "by_length_desc ks = sort_key (\<lambda>k. - int (length k)) ks"

definition next_umount :: "host \<Rightarrow> globals \<Rightarrow> world \<Rightarrow> exc + string option" where
  "next_umount h g w =
     (case get_mounts h w of
        Inl e \<Rightarrow> Inl e
      | Inr m \<Rightarrow> Inr (find (selected g) (by_length_desc (map fst m))))"

definition umount_cmd :: "string \<Rightarrow> string list" where
  "umount_cmd mp = [''sudo'', ''umount'', ''-l'', mp]"

function umount_loop :: "host \<Rightarrow> globals \<Rightarrow> unit action" where
  "umount_loop h g w =
     (case next_umount h g w of
        Inl e \<Rightarrow> (Inl e, w)
      | Inr None \<Rightarrow> (Inr (), w)
      | Inr (Some mp) \<Rightarrow>
          (case call h (umount_cmd mp) w of
             (Inl e, w1) \<Rightarrow> (Inl e, w1)
           | (Inr u, w1) \<Rightarrow> umount_loop h g w1))"
  by pat_completeness auto

text \<open>
  The loop ends: a round that unmounts takes its path from the mount table, so the
  umount that succeeds removes a line, and the table gets shorter.
\<close>

lemma detach_rev_length:
  "\<exists>x \<in> set xs. P x \<Longrightarrow> length (detach_rev P B xs) < length xs"
  by (induction xs) (auto intro: less_SucI)

lemma detach_last_length:
  "\<exists>x \<in> set xs. P x \<Longrightarrow> length (detach_last P B xs) < length xs"
  using detach_rev_length[of "rev xs" P B] by (simp add: detach_last_def)

lemma get_mounts_loop_keys:
  "get_mounts_loop h ls ans = Inr m \<Longrightarrow>
   fst ` set m = fst ` set ans \<union> {d. \<exists>l \<in> set ls. line_dest h l = Some d}"
proof (induction ls arbitrary: ans)
  case Nil
  then show ?case by simp
next
  case (Cons l ls)
  then obtain src dest where f: "line_fields l = Some (src, dest)"
    and r: "get_mounts_loop h ls (AList.update (h_resolve h dest) src ans) = Inr m"
    by (auto split: option.splits)
  from Cons.IH[OF r] f show ?case
    by (auto simp: dom_update line_dest_def)
qed

lemma get_mounts_keys:
  "get_mounts h w = Inr m \<Longrightarrow>
   set (map fst m) = {d. \<exists>l \<in> set (mountinfo w). line_dest h l = Some d}"
  using get_mounts_loop_keys[of h "mountinfo w" "[]" m]
  by (simp add: get_mounts_def split: if_splits)

lemma find_SomeD: "find P xs = Some x \<Longrightarrow> P x \<and> x \<in> set xs"
  by (induction xs) (auto split: if_splits)

lemma next_umount_Some:
  assumes "next_umount h g w = Inr (Some mp)"
  shows "selected g mp" and "\<exists>l \<in> set (mountinfo w). line_dest h l = Some mp"
proof -
  from assms obtain m where m: "get_mounts h w = Inr m"
    and f: "find (selected g) (by_length_desc (map fst m)) = Some mp"
    by (auto simp: next_umount_def split: sum.splits)
  from find_SomeD[OF f] have "selected g mp" "mp \<in> set (map fst m)"
    by (simp_all add: by_length_desc_def)
  with get_mounts_keys[OF m]
  show "selected g mp" "\<exists>l \<in> set (mountinfo w). line_dest h l = Some mp"
    by auto
qed

lemma call_umount:
  assumes "call h (umount_cmd mp) w = (Inr u, w1)"
  shows "mountinfo w1 =
           detach_last (\<lambda>l. line_dest h l = Some mp) (line_below h mp) (mountinfo w)"
    and "files w1 = files w"
    and "next_status w = 0"
    and "undecodable w1 = undecodable w"
  using assms
  by (auto simp: call_def spawn_def Let_def umount_cmd_def sys_effect_def del_mount_lazy_def
      split: if_splits)

termination umount_loop
proof (relation "measure (\<lambda>(h, g, w). length (mountinfo w))")
  show "wf (measure (\<lambda>(h, g, w). length (mountinfo w)))" by simp
next
  fix h g w x2 mp x y u
  assume n: "next_umount h g w = Inr x2" "x2 = Some mp"
    and c: "(x, y) = call h (umount_cmd mp) w" "x = Inr u"
  from n have "\<exists>l \<in> set (mountinfo w). line_dest h l = Some mp"
    using next_umount_Some(2) by simp
  from detach_last_length[OF this, of "line_below h mp"] c call_umount(1)[of h mp w u y]
  show "((h, g, y), (h, g, w)) \<in> measure (\<lambda>(h, g, w). length (mountinfo w))"
    by simp
qed

definition umount_all :: "host \<Rightarrow> globals \<Rightarrow> unit action" where
  "umount_all h g =
     seq_a (umount_loop h g)
       (\<lambda>w. if mounted w then (Inr (), w\<lparr>mounted := False\<rparr>) else (Inl AttributeError, w))"

text \<open>A line of the mount table that \<open>umount_all\<close> selects, by its resolved mount point.\<close>

definition sel_line :: "host \<Rightarrow> globals \<Rightarrow> string \<Rightarrow> bool" where
  "sel_line h g l = (case line_dest h l of None \<Rightarrow> False | Some d \<Rightarrow> selected g d)"

text \<open>The paths of the lazy unmounts among logged processes, in the order they ran.\<close>

definition umounted :: "proc list \<Rightarrow> string list" where
  "umounted ps =
     concat (map (\<lambda>(argv, env, s). if take 3 argv = [''sudo'', ''umount'', ''-l''] \<and> length argv = 4
                                     then [argv ! 3] else []) ps)"

subsection \<open>Mount Orchestrator: mount\_all\<close>

text \<open>
  \<^verbatim>\<open>
  def mount_all(tdir):
      scall = partial(call, echo=False)
      current_mounts = get_mounts()
      base = os.path.dirname(os.path.abspath(__file__))

      def mount(src, dest, readonly=False):
          dest = os.path.join(img_path, dest.lstrip('/'))
          if dest not in current_mounts:
              scall('sudo', 'mkdir', '-p', dest)
              scall('sudo', 'mount', '--bind', src, dest)
              if readonly:
                  scall('sudo', 'mount', '-o', 'remount,ro,bind', dest)

      mount(tdir, '/tmp')
      mount(sw_dir, '/sw')
      mount(os.getcwd(), '/src', readonly=True)
      mount(sources_dir, '/sources')
      mount(os.path.dirname(base), '/bypy', readonly=True)
      mount('/dev', '/dev')
      scall('sudo', 'mount', '-t', 'proc', 'proc',
            os.path.join(img_path, 'proc'))
      scall('sudo', 'mount', '-t', 'sysfs', 'sys', os.path.join(img_path, 'sys'))
      scall('sudo', 'chmod', 'a+w', os.path.join(img_path, 'dev/shm'))
      scall('sudo', 'mount', '--bind', '/dev/shm',
            os.path.join(img_path, 'dev/shm'))
  \<close>
  \<open>current_mounts\<close> is read once, before the first mount.
\<close>

definition mount :: "host \<Rightarrow> globals \<Rightarrow> dict \<Rightarrow> string \<Rightarrow> string \<Rightarrow> bool \<Rightarrow> unit action" where
  "mount h g current_mounts src dest readonly =
     (let dest = path_join (img_path g) (lstrip_slash dest)
      in when_a (dest \<notin> set (map fst current_mounts))
           (steps ([call h [''sudo'', ''mkdir'', ''-p'', dest],
                    call h [''sudo'', ''mount'', ''--bind'', src, dest]]
                   @ (if readonly then [call h [''sudo'', ''mount'', ''-o'', ''remount,ro,bind'', dest]]
                      else []))))"

definition mount_all :: "host \<Rightarrow> globals \<Rightarrow> string \<Rightarrow> unit action" where
  "mount_all h g tdir w =
     (case get_mounts h w of
        Inl e \<Rightarrow> (Inl e, w)
      | Inr current_mounts \<Rightarrow>
          steps
            [mount h g current_mounts tdir ''/tmp'' False,
             mount h g current_mounts (sw_dir g) ''/sw'' False,
             mount h g current_mounts (h_cwd h) ''/src'' True,
             mount h g current_mounts (sources_dir g) ''/sources'' False,
             mount h g current_mounts (dirname (h_base h)) ''/bypy'' True,
             mount h g current_mounts ''/dev'' ''/dev'' False,
             call h [''sudo'', ''mount'', ''-t'', ''proc'', ''proc'', path_join (img_path g) ''proc''],
             call h [''sudo'', ''mount'', ''-t'', ''sysfs'', ''sys'', path_join (img_path g) ''sys''],
             call h [''sudo'', ''chmod'', ''a+w'', path_join (img_path g) ''dev/shm''],
             call h [''sudo'', ''mount'', ''--bind'', ''/dev/shm'', path_join (img_path g) ''dev/shm'']]
            w)"

subsection \<open>Session Controller: the lock\<close>

text \<open>
  \<^verbatim>\<open>
  def singleinstance():
      name = f'bypy-{arch}-singleinstance-{os.getcwd()}'
      return single_instance(name)
  \<close>
\<close>

definition lock_name :: "string \<Rightarrow> string \<Rightarrow> string" where
  "lock_name a cwd = ''bypy-'' @ a @ ''-singleinstance-'' @ cwd"

text \<open>
  Modelled from the spec: \<open>single_instance\<close> of bypy/utils.py, which is not among the
  sources. The lock is "a process-wide mutual-exclusion lock" that "fails fast ... if
  already held": the names held on the machine are a set, acquiring a name that is held
  fails and changes nothing, acquiring a free name succeeds and holds it. One
  acquisition is one step; nothing of another process comes between its test and its
  taking the name.
\<close>

definition single_instance :: "string \<Rightarrow> string set \<Rightarrow> bool \<times> string set" where
  "single_instance name locks = (if name \<in> locks then (False, locks) else (True, insert name locks))"

definition singleinstance :: "host \<Rightarrow> globals \<Rightarrow> string set \<Rightarrow> bool \<times> string set" where
  "singleinstance h g locks = single_instance (lock_name (arch g) (h_cwd h)) locks"

text \<open>
  The first lines of \<open>main\<close>, up to the lock:
  \<^verbatim>\<open>
  def main(args=tuple(sys.argv)):
      global arch
      args = list(args)
      if len(args) > 1 and args[1] in ('64', '32'):
          arch = args[1]
          del args[1]
      if not singleinstance():
          raise SystemExit('Another instance of the linux container is running')
  \<close>
  The result is the module's globals with the chosen \<open>arch\<close> and the remaining arguments.
\<close>

definition select_arch :: "globals \<Rightarrow> string list \<Rightarrow> globals \<times> string list" where
  "select_arch g args =
     (if length args > 1 \<and> args ! 1 \<in> set [''64'', ''32'']
      then (g\<lparr>arch := args ! 1\<rparr>, take 1 args @ drop 2 args)
      else (g, args))"

definition main_lock ::
  "host \<Rightarrow> globals \<Rightarrow> string list \<Rightarrow> string set \<Rightarrow> (exc + globals \<times> string list) \<times> string set" where
  "main_lock h g args locks =
     (case select_arch g args of (g1, args1) \<Rightarrow>
        (case singleinstance h g1 locks of (ok, locks1) \<Rightarrow>
           if \<not> ok
           then (Inl (SystemExitMsg ''Another instance of the linux container is running''), locks1)
           else (Inr (g1, args1), locks1)))"

subsection \<open>Container Provisioner\<close>

text \<open>\<open>s.split(c)\<close> for a one-character separator, and \<open>' '.join(xs)\<close>.\<close>

fun split_on_acc :: "char \<Rightarrow> string \<Rightarrow> string \<Rightarrow> string list" where
  "split_on_acc c cur [] = [cur]"
| "split_on_acc c cur (x # xs) =
     (if x = c then cur # split_on_acc c [] xs else split_on_acc c (cur @ [x]) xs)"

definition split_on :: "char \<Rightarrow> string \<Rightarrow> string list" where
  "split_on c s = split_on_acc c [] s"

fun join_space :: "string list \<Rightarrow> string" where
  "join_space [] = []"
| "join_space [x] = x"
| "join_space (x # y # ys) = x @ '' '' @ join_space (y # ys)"

text \<open>
  \<open>url.format(a)\<close> is the parameter \<open>h_format\<close> of the host. On a template with one
  replacement field \<open>{}\<close> and no other brace, as DEFAULT\_BASE\_IMAGE is, the field is
  replaced by the argument: \<open>format1\<close> is \<open>str.format\<close> on these templates, and the host
  of the examples uses it on such a template.
\<close>

fun format1 :: "string \<Rightarrow> string \<Rightarrow> string" where
  "format1 (c # d # cs) a =
     (if c = CHR 0x7B \<and> d = CHR 0x7D then a @ cs else c # format1 (d # cs) a)"
| "format1 cs a = cs"

text \<open>
  \<open>os.remove\<close>, \<open>os.rename\<close> and \<open>os.makedirs\<close> on the paths that exist.
\<close>

definition os_remove :: "string \<Rightarrow> unit action" where
  "os_remove p w = (if p \<in> files w then (Inr (), w\<lparr>files := files w - {p}\<rparr>)
                    else (Inl FileNotFoundError, w))"

definition os_rename :: "string \<Rightarrow> string \<Rightarrow> unit action" where
  "os_rename a b w = (if a \<in> files w then (Inr (), w\<lparr>files := insert b (files w - {a})\<rparr>)
                      else (Inl FileNotFoundError, w))"

definition os_makedirs :: "string \<Rightarrow> unit action" where
  "os_makedirs p w = (if p \<in> files w then (Inl FileExistsError, w)
                      else (Inr (), w\<lparr>files := insert p (files w)\<rparr>))"

text \<open>
  \<^verbatim>\<open>
  def cached_download(url):
      bn = os.path.basename(url)
      local = os.path.join('/tmp', bn)
      if not os.path.exists(local):
          print('Downloading', url, '...')
          data = urlopen(url).read()
          with open(local, 'wb') as f:
              f.write(data)
      return local
  \<close>
  \<open>urlopen\<close> raises URLError when the host cannot fetch the URL.
\<close>

definition cached_download :: "host \<Rightarrow> string \<Rightarrow> string action" where
  "cached_download h url w =
     (let local = path_join ''/tmp'' (basename url)
      in if local \<in> files w then (Inr local, w)
         else if h_fetch h url then (Inr local, w\<lparr>files := insert local (files w)\<rparr>)
         else (Inl URLError, w))"

text \<open>
  \<^verbatim>\<open>
  def write_in_chroot(path, data):
      path = path.lstrip('/')
      p = subprocess.Popen([
          'sudo', 'tee', os.path.join(img_path, path)],
          stdin=subprocess.PIPE, stdout=subprocess.DEVNULL)
      if not isinstance(data, bytes):
          data = data.encode('utf-8')
      p.communicate(data)
      if p.wait() != 0:
          raise SystemExit(p.returncode)
  \<close>
\<close>

definition write_in_chroot :: "host \<Rightarrow> globals \<Rightarrow> string \<Rightarrow> string \<Rightarrow> unit action" where
  "write_in_chroot h g path data w =
     (case spawn h [''sudo'', ''tee'', path_join (img_path g) (lstrip_slash path)] None w of
        (ret, w1) \<Rightarrow> if ret \<noteq> 0 then (Inl (SystemExit ret), w1) else (Inr (), w1))"

text \<open>
  \<open>try: body finally: cleanup\<close>: the cleanup runs whatever the body did; an exception
  of the cleanup replaces the outcome of the body.
\<close>

definition try_finally :: "unit action \<Rightarrow> unit action \<Rightarrow> unit action" where
  "try_finally body cleanup w =
     (case body w of (r, w1) \<Rightarrow>
        (case cleanup w1 of (Inl e, w2) \<Rightarrow> (Inl e, w2) | (Inr u, w2) \<Rightarrow> (r, w2)))"

text \<open>
  \<^verbatim>\<open>
  @contextmanager
  def mounts_needed_for_install():
      mounts = []
      for dev in ('random', 'urandom'):
          mounts.append(os.path.join(img_path, f'dev/{dev}'))
          call('sudo', 'touch', mounts[-1])
          call('sudo', 'mount', '--bind', f'/dev/{dev}', mounts[-1])
      try:
          yield
      finally:
          for x in mounts:
              call('sudo', 'umount', '-l', x)
  \<close>
  The body of the with statement is the argument.
\<close>

definition mounts_needed_for_install :: "host \<Rightarrow> globals \<Rightarrow> unit action \<Rightarrow> unit action" where
  "mounts_needed_for_install h g body =
     (let mounts = map (\<lambda>dev. path_join (img_path g) (''dev/'' @ dev)) [''random'', ''urandom'']
      in seq_a
           (steps (concat (map (\<lambda>dev.
              [call h [''sudo'', ''touch'', path_join (img_path g) (''dev/'' @ dev)],
               call h [''sudo'', ''mount'', ''--bind'', ''/dev/'' @ dev,
                       path_join (img_path g) (''dev/'' @ dev)]])
              [''random'', ''urandom''])))
           (try_finally body
              (steps (map (\<lambda>x. call h [''sudo'', ''umount'', ''-l'', x]) mounts))))"

text \<open>The two lists of commands for the older images (lines 132 to 155).\<close>

definition install_modern_python :: "string \<Rightarrow> cmd list" where
  \<open>install_modern_python image_name =
     [CmdStr ''add-apt-repository ppa:deadsnakes/ppa -y'',
      CmdStr ''apt-get update'',
      CmdStr ''apt-get install -y python3.9 python3.9-venv'',
      CmdList [''sh'', ''-c'', ''ln -sf `which python3.9` `which python3`''],
      CmdStr ''python3 -m ensurepip --upgrade --default-pip'']\<close>

definition kitware :: string where
  "kitware = ''/usr/share/keyrings/kitware-archive-keyring.gpg''"

definition install_modern_cmake :: "string \<Rightarrow> cmd list" where
  \<open>install_modern_cmake image_name =
     [CmdList [''sh'', ''-c'',
        ''curl https://apt.kitware.com/keys/kitware-archive-latest.asc |''
        @ '' gpg --dearmor - > '' @ kitware],
      CmdList [''sh'', ''-c'', ''echo '' @ [CHR 0x27] @ ''deb [signed-by='' @ kitware @ '']'' @ [CHR 0x27]
        @ '' https://apt.kitware.com/ubuntu/ '' @ image_name @ '' main''
        @ '' > /etc/apt/sources.list.d/kitware.list''],
      CmdStr ''apt-get update'',
      CmdStr (''rm '' @ kitware),
      CmdStr ''apt-get install -y kitware-archive-keyring'',
      CmdStr ''apt-get install -y cmake'']\<close>

text \<open>\<open>if cmd:\<close> on a string or a list.\<close>

definition cmd_nonempty :: "cmd \<Rightarrow> bool" where
  "cmd_nonempty c = (case c of CmdStr s \<Rightarrow> s \<noteq> [] | CmdList xs \<Rightarrow> xs \<noteq> [])"

text \<open>
  The commands of the loop of lines 210 to 226, in order: \<open>tzdata_cmds\<close>, the package
  index and the build tools, \<open>extra_cmds\<close>, then pip, the dependencies and the cleanup.
\<close>

definition tzdata_cmds :: "cmd list" where
  \<open>tzdata_cmds =
     map (\<lambda>x. CmdStr (''sh -c "echo '' @ [CHR 0x27] @ x @ [CHR 0x27] @ '' | debconf-set-selections"''))
       [''tzdata tzdata/Areas select Asia'', ''tzdata tzdata/Zones/Asia select Kolkata'']
     @ [CmdStr ''debconf-show tzdata'']\<close>

definition extra_cmds :: "string \<Rightarrow> cmd list" where
  "extra_cmds image_name =
     (if image_name \<in> set [''xenial'', ''bionic'']
      then install_modern_python image_name @ install_modern_cmake image_name
      else [CmdStr ''apt-get install -y python-is-python3 python3-pip'',
            CmdStr ''apt-get install -y cmake''])"

definition install_cmds :: "host \<Rightarrow> string \<Rightarrow> string \<Rightarrow> cmd list" where
  \<open>install_cmds h image_name deps_cmd =
     tzdata_cmds @
     [CmdStr ''apt-get update'',
      CmdStr (''sh -c '' @ [CHR 0x27] @ ''echo "6'' @ [CHR 0x5C] @ ''n44" | apt-get install -y tzdata''
              @ [CHR 0x27]),
      CmdStr (''apt-get install -y build-essential software-properties-common''
              @ '' nasm chrpath zsh git uuid-dev libmount-dev apt-transport-https''
              @ '' dh-autoreconf gperf'')]
     @ extra_cmds image_name @
     [CmdStr ''python3 -m pip install ninja'',
      CmdStr ''python3 -m pip install meson'',
      CmdStr deps_cmd,
      CmdStr ''apt-get clean'',
      CmdStr (''chsh -s /bin/zsh '' @ h_user h)]\<close>

text \<open>
  \<open>_build_container\<close> (lines 158 to 231). \<open>url.format\<close> raises what \<open>str.format\<close> raises;
  the index \<open>[1]\<close> of line 161 raises IndexError when the last path component of the URL
  has no hyphen; \<open>conf['deps']\<close> raises KeyError when the key is missing.
\<close>

definition build_container_inner :: "host \<Rightarrow> globals \<Rightarrow> string \<Rightarrow> unit action" where
  \<open>build_container_inner h g url =
     (let user = h_user h;
          uid = string_of_nat (h_euid h);
          gid = string_of_nat (h_egid h)
      in bind_a
        (case h_format h url (if arch g = ''64'' then ''amd64'' else ''i386'') of
           Inl e \<Rightarrow> raise_a e
         | Inr u \<Rightarrow> cached_download h u)
        (\<lambda>archive.
          case split_on CHR ''-'' (last (split_on CHR ''/'' url)) of
            x0 # image_name # xs \<Rightarrow>
              steps
                [(\<lambda>w. when_a (img_path g \<in> files w)
                         (call h [''sudo'', ''rm'', ''-rf'', img_path g]) w),
                 (\<lambda>w. when_a (img_store_path g \<in> files w) (os_remove (img_store_path g)) w),
                 os_makedirs (img_path g),
                 call h [''truncate'', ''-s'', ''2G'', img_store_path g],
                 call h [''mkfs.ext4'', img_store_path g],
                 mount_image h g,
                 call h [''sudo tar -C "'' @ img_path g @ ''" -xpf "'' @ archive @ ''"''],
                 when_a (h_egid h \<noteq> 100)
                   (chroot h g (CmdStr (''groupadd -f -g '' @ gid @ '' crusers'')) True False),
                 chroot h g (CmdStr (''useradd --home-dir=/home/'' @ user @ '' --create-home''
                   @ '' --uid='' @ uid @ '' --gid='' @ gid @ '' '' @ user)) True False,
                 write_in_chroot h g ''/usr/sbin/policy-rc.d'' (''#!/bin/sh'' @ [CHR 0x0A] @ ''exit 101''),
                 chroot h g (CmdStr ''chmod +x /usr/sbin/policy-rc.d'') True False,
                 chroot h g (CmdStr ''dpkg-divert --local --rename --add /sbin/initctl'') True False,
                 chroot h g (CmdStr ''cp -a /usr/sbin/policy-rc.d /sbin/initctl'') True False,
                 chroot h g (CmdStr (''sed -i '' @ [CHR 0x27] @ ''s/^exit.*/exit 0/'' @ [CHR 0x27]
                   @ '' /sbin/initctl'')) True False,
                 write_in_chroot h g ''/etc/apt/apt.conf.d/chroot-no-languages''
                   ''Acquire::Languages "none";'',
                 (case conf_deps g of
                    None \<Rightarrow> raise_a KeyError
                  | Some deps \<Rightarrow>
                      (let deps_cmd = ''apt-get install -y '' @
                             (case deps of DepsStr s \<Rightarrow> s | DepsList xs \<Rightarrow> join_space xs)
                       in mounts_needed_for_install h g
                            (steps (map (\<lambda>c. when_a (cmd_nonempty c) (chroot h g c True True))
                                      (install_cmds h image_name deps_cmd)))))]
          | _ \<Rightarrow> raise_a IndexError))\<close>

text \<open>
  \<^verbatim>\<open>
  def build_container():
      url = conf['image']
      try:
          _build_container(url=url)
      except Exception:
          failed_img_path = img_store_path + '.failed'
          if os.path.exists(failed_img_path):
              os.remove(failed_img_path)
          os.rename(img_store_path, failed_img_path)
          raise

  def check_for_image(tag):
      return os.path.exists(img_store_path)
  \<close>
  The handler runs for the exceptions that are instances of Exception.
\<close>

definition build_container :: "host \<Rightarrow> globals \<Rightarrow> unit action" where
  "build_container h g =
     (case conf_image g of
        None \<Rightarrow> raise_a KeyError
      | Some url \<Rightarrow>
          (\<lambda>w. case build_container_inner h g url w of
                  (Inr u, w1) \<Rightarrow> (Inr u, w1)
                | (Inl e, w1) \<Rightarrow>
                    if is_Exception e
                    then (let failed_img_path = img_store_path g @ ''.failed''
                          in steps
                               [(\<lambda>w. when_a (failed_img_path \<in> files w) (os_remove failed_img_path) w),
                                os_rename (img_store_path g) failed_img_path,
                                raise_a e] w1)
                    else (Inl e, w1)))"

definition check_for_image :: "globals \<Rightarrow> world \<Rightarrow> bool" where
  "check_for_image g w \<longleftrightarrow> img_store_path g \<in> files w"

subsection \<open>A build host for the examples\<close>

text \<open>
  On the host of the examples /dev is a devtmpfs and /dev/shm a tmpfs, and every other
  path lies in the root file system, an ext4 on /dev/sda1.
\<close>

definition fs0 :: "string \<Rightarrow> string \<times> string \<times> string" where
  "fs0 p =
     (if p = ''/dev'' then (''/'', ''devtmpfs'', ''udev'')
      else if p = ''/dev/shm'' then (''/'', ''tmpfs'', ''tmpfs'')
      else if prefix ''/dev/shm/'' p then (drop 8 p, ''tmpfs'', ''tmpfs'')
      else if prefix ''/dev/'' p then (drop 4 p, ''devtmpfs'', ''udev'')
      else (p, ''ext4'', ''/dev/sda1''))"

definition host0 :: host where
  "host0 = \<lparr>h_user = ''bob'', h_euid = 1000, h_egid = 1000, h_cwd = ''/w'',
            h_term = Some ''xterm'', h_base = ''/w/bypy/bypy'',
            h_infocmp = ''#  Reconstructed via infocmp from file: /lib/terminfo/x/xterm'',
            h_fetch = (\<lambda>u. True), h_resolve = (\<lambda>p. p), h_fs = fs0,
            h_format = (\<lambda>t a. Inr (format1 t a))\<rparr>"

definition globals0 :: globals where
  "globals0 = \<lparr>arch = ''64'', img_path = ''/w/bypy/b/linux/64/chroot'',
               img_store_path = ''/w/bypy/b/linux/64/chroot.img'',
               sw_dir = ''/w/bypy/b/linux/64/sw'', sources_dir = ''/w/bypy/b/sources-cache'',
               conf_image = Some ''https://example.org/core/ubuntu-jammy-core-cloudimg-{}-root.tar.gz'',
               conf_deps = Some (DepsList [''libssl-dev'', ''zlib1g-dev''])\<rparr>"

definition world0 :: world where
  "world0 = \<lparr>files = {}, mountinfo = [mountinfo_line ''/'' ''/'' ''ext4'' ''/dev/sda1''],
              undecodable = False, mounted = False, pending = [], log = []\<rparr>"

text \<open>
  The mount table of the specification's example, \<open>{/a/b: src1, /a/b/c: src2, /x: src3}\<close>
  with the container path /a/b; the same table with a sibling of the container path and
  a mount below the container whose path contains /chroot/src/; a table with such a
  mount and the sibling while nothing is mounted at the container path itself; and a
  container that itself lies below a path containing /chroot/src/, with its image
  mounted.
\<close>

definition globalsA :: globals where
  "globalsA = globals0\<lparr>img_path := ''/a/b'', img_store_path := ''/a/b.img''\<rparr>"

definition worldA :: world where
  "worldA = \<lparr>files = {},
              mountinfo = [mountinfo_line ''src1'' ''/a/b'' ''none'' ''none'',
                           mountinfo_line ''src2'' ''/a/b/c'' ''none'' ''none'',
                           mountinfo_line ''src3'' ''/x'' ''none'' ''none''],
              undecodable = False, mounted = True, pending = [], log = []\<rparr>"

definition worldB :: world where
  "worldB = worldA\<lparr>mountinfo := mountinfo worldA @
              [mountinfo_line ''src4'' ''/a/b-extra'' ''none'' ''none'',
               mountinfo_line ''src5'' ''/a/b/chroot/src/y'' ''none'' ''none'']\<rparr>"





definition worldB_done :: world where
  "worldB_done = worldB\<lparr>mountinfo := [mountinfo_line ''src3'' ''/x'' ''none'' ''none''],
                   mounted := False,
                   log := map (\<lambda>p. (umount_cmd p, None, 0)) [''/a/b-extra'', ''/a/b/c'', ''/a/b'']\<rparr>"



definition host1 :: host where
  "host1 = host0\<lparr>h_cwd := ''/w2''\<rparr>"

definition tdir0 :: string where
  "tdir0 = ''/w/bypy/b/tmp-1''"

definition worldM :: world where
  "worldM = world0\<lparr>files := {img_path globals0, img_store_path globals0},
               mountinfo := mountinfo world0 @
                 [mountinfo_line ''/'' (img_path globals0) ''ext4'' ''/dev/loop0''],
               mounted := True\<rparr>"

definition special_mounts :: "string list" where
  "special_mounts =
     [mountinfo_line ''/'' ''/w/bypy/b/linux/64/chroot/proc'' ''proc'' ''proc'',
      mountinfo_line ''/'' ''/w/bypy/b/linux/64/chroot/sys'' ''sysfs'' ''sys'',
      mountinfo_line ''/'' ''/w/bypy/b/linux/64/chroot/dev/shm'' ''tmpfs'' ''tmpfs'']"

definition worldM1 :: world where
  "worldM1 = worldM\<lparr>
     mountinfo := mountinfo worldM @
       [mountinfo_line ''/w/bypy/b/tmp-1'' ''/w/bypy/b/linux/64/chroot/tmp'' ''ext4'' ''/dev/sda1'',
        mountinfo_line ''/w/bypy/b/linux/64/sw'' ''/w/bypy/b/linux/64/chroot/sw'' ''ext4'' ''/dev/sda1'',
        mountinfo_line ''/w'' ''/w/bypy/b/linux/64/chroot/src'' ''ext4'' ''/dev/sda1'',
        mountinfo_line ''/w/bypy/b/sources-cache'' ''/w/bypy/b/linux/64/chroot/sources'' ''ext4''
          ''/dev/sda1'',
        mountinfo_line ''/w/bypy'' ''/w/bypy/b/linux/64/chroot/bypy'' ''ext4'' ''/dev/sda1'',
        mountinfo_line ''/'' ''/w/bypy/b/linux/64/chroot/dev'' ''devtmpfs'' ''udev'']
       @ special_mounts,
     log := map (\<lambda>argv. (argv, None, 0))
       [[''sudo'', ''mkdir'', ''-p'', ''/w/bypy/b/linux/64/chroot/tmp''],
        [''sudo'', ''mount'', ''--bind'', ''/w/bypy/b/tmp-1'', ''/w/bypy/b/linux/64/chroot/tmp''],
        [''sudo'', ''mkdir'', ''-p'', ''/w/bypy/b/linux/64/chroot/sw''],
        [''sudo'', ''mount'', ''--bind'', ''/w/bypy/b/linux/64/sw'', ''/w/bypy/b/linux/64/chroot/sw''],
        [''sudo'', ''mkdir'', ''-p'', ''/w/bypy/b/linux/64/chroot/src''],
        [''sudo'', ''mount'', ''--bind'', ''/w'', ''/w/bypy/b/linux/64/chroot/src''],
        [''sudo'', ''mount'', ''-o'', ''remount,ro,bind'', ''/w/bypy/b/linux/64/chroot/src''],
        [''sudo'', ''mkdir'', ''-p'', ''/w/bypy/b/linux/64/chroot/sources''],
        [''sudo'', ''mount'', ''--bind'', ''/w/bypy/b/sources-cache'',
         ''/w/bypy/b/linux/64/chroot/sources''],
        [''sudo'', ''mkdir'', ''-p'', ''/w/bypy/b/linux/64/chroot/bypy''],
        [''sudo'', ''mount'', ''--bind'', ''/w/bypy'', ''/w/bypy/b/linux/64/chroot/bypy''],
        [''sudo'', ''mount'', ''-o'', ''remount,ro,bind'', ''/w/bypy/b/linux/64/chroot/bypy''],
        [''sudo'', ''mkdir'', ''-p'', ''/w/bypy/b/linux/64/chroot/dev''],
        [''sudo'', ''mount'', ''--bind'', ''/dev'', ''/w/bypy/b/linux/64/chroot/dev''],
        [''sudo'', ''mount'', ''-t'', ''proc'', ''proc'', ''/w/bypy/b/linux/64/chroot/proc''],
        [''sudo'', ''mount'', ''-t'', ''sysfs'', ''sys'', ''/w/bypy/b/linux/64/chroot/sys''],
        [''sudo'', ''chmod'', ''a+w'', ''/w/bypy/b/linux/64/chroot/dev/shm''],
        [''sudo'', ''mount'', ''--bind'', ''/dev/shm'', ''/w/bypy/b/linux/64/chroot/dev/shm'']]\<rparr>"

definition world_fail :: world where
  "world_fail = world0\<lparr>pending := [0, 0, 0, 0, 0, 0, 9]\<rparr>"

subsection \<open>Reading the log\<close>

text \<open>
  An action is quiet when every child process it runs inherits the environment of the
  parent: such a child is one of the helper programs, never the command run in the
  chroot, which alone is started with an explicit environment.
\<close>

definition helper_procs :: "proc list \<Rightarrow> bool" where
  "helper_procs ps \<longleftrightarrow> (\<forall>p \<in> set ps. fst (snd p) = None)"

definition quiet :: "'a action \<Rightarrow> bool" where
  "quiet m \<longleftrightarrow> (\<forall>w r w1. m w = (r, w1) \<longrightarrow> (\<exists>pre. log w1 = log w @ pre \<and> helper_procs pre))"

text \<open>
  The child that \<open>chroot\<close> starts for the arguments \<open>args\<close>, as the log records it
  when it exits with status \<open>n\<close>; and the children of \<open>chroot\<close> among logged processes.
\<close>

definition child_of :: "host \<Rightarrow> globals \<Rightarrow> bool \<Rightarrow> bool \<Rightarrow> string list \<Rightarrow> int \<Rightarrow> proc" where
  "child_of h g as_root fi args n =
     (chroot_argv h g as_root (chroot_env h g as_root fi) args, Some (chroot_env h g as_root fi), n)"

definition children :: "proc list \<Rightarrow> proc list" where
  "children ps = filter (\<lambda>p. fst (snd p) \<noteq> None) ps"

text \<open>The processes logged between the world \<open>w\<close> and the later world \<open>w'\<close>.\<close>

definition new_log :: "world \<Rightarrow> world \<Rightarrow> proc list" where
  "new_log w w' = drop (length (log w)) (log w')"

section \<open>Properties\<close>

subsection \<open>Frame facts of the external programs\<close>

lemma sys_effect_frame:
  "mounted (sys_effect h argv w) = mounted w"
  "pending (sys_effect h argv w) = pending w"
  "log (sys_effect h argv w) = log w"
  "undecodable (sys_effect h argv w) = undecodable w"
  by (simp_all add: sys_effect_def add_mount_def del_mount_def del_mount_lazy_def
      split: list.splits prod.splits)

lemma spawn_frame:
  assumes "spawn h argv env w = (s, w1)"
  shows "mounted w1 = mounted w"
    and "pending w1 = drop 1 (pending w)"
    and "log w1 = log w @ [(argv, env, s)]"
    and "s = next_status w"
  using assms by (auto simp: spawn_def Let_def sys_effect_frame split: if_splits)

lemma call_frame:
  assumes "call h argv w = (r, w1)"
  shows "mounted w1 = mounted w"
    and "pending w1 = drop 1 (pending w)"
    and "log w1 = log w @ [(argv, None, next_status w)]"
    and "r = (if next_status w = 0 then Inr () else Inl (SystemExit (next_status w)))"
proof -
  obtain s w' where sp: "spawn h argv None w = (s, w')"
    by (cases "spawn h argv None w")
  with assms have w1: "w1 = w'" and r: "r = (if s \<noteq> 0 then Inl (SystemExit s) else Inr ())"
    by (auto simp: call_def split: if_splits)
  from spawn_frame[OF sp] w1 r
  show "mounted w1 = mounted w" "pending w1 = drop 1 (pending w)"
    "log w1 = log w @ [(argv, None, next_status w)]"
    "r = (if next_status w = 0 then Inr () else Inl (SystemExit (next_status w)))"
    by auto
qed

lemma set_mounted_same: "mounted w = b \<Longrightarrow> w\<lparr>mounted := b\<rparr> = w"
  by (cases w) simp

subsection \<open>C5: the mounted flag makes mount\_image and unmount\_image idempotent\<close>

lemma mount_image_mounted: "mounted w \<Longrightarrow> mount_image h g w = (Inr (), w)"
  by (simp add: mount_image_def seq_a_def bind_a_def when_a_def return_a_def modify_a_def
      set_mounted_same)

lemma unmount_image_unmounted: "\<not> mounted w \<Longrightarrow> unmount_image h g w = (Inr (), w)"
  by (simp add: unmount_image_def when_a_def return_a_def)

lemma mount_image_result:
  assumes "mount_image h g w = (Inr (), w1)"
  shows "mounted w1"
  using assms
  by (auto simp: mount_image_def seq_a_def bind_a_def when_a_def return_a_def modify_a_def
      split: if_splits prod.splits sum.splits)

lemma unmount_image_result:
  assumes "unmount_image h g w = (Inr (), w1)"
  shows "\<not> mounted w1"
  using assms
  by (auto simp: unmount_image_def seq_a_def bind_a_def when_a_def return_a_def modify_a_def
      split: if_splits prod.splits sum.splits)

lemma unmount_image_mounted:
  assumes "mounted w"
  shows "log (snd (unmount_image h g w)) =
           log w @ [([''sudo'', ''umount'', img_path g], None, next_status w)]"
    and "next_status w = 0 \<Longrightarrow>
           fst (unmount_image h g w) = Inr () \<and> \<not> mounted (snd (unmount_image h g w))"
    and "next_status w \<noteq> 0 \<Longrightarrow>
           fst (unmount_image h g w) = Inl (SystemExit (next_status w))"
proof -
  obtain r w1 where c: "call h [''sudo'', ''umount'', img_path g] w = (r, w1)"
    by (cases "call h [''sudo'', ''umount'', img_path g] w")
  note fr = call_frame[OF c]
  show "log (snd (unmount_image h g w)) =
           log w @ [([''sudo'', ''umount'', img_path g], None, next_status w)]"
    using assms c fr
    by (auto simp: unmount_image_def seq_a_def bind_a_def when_a_def modify_a_def)
  show "next_status w = 0 \<Longrightarrow>
           fst (unmount_image h g w) = Inr () \<and> \<not> mounted (snd (unmount_image h g w))"
    using assms c fr
    by (auto simp: unmount_image_def seq_a_def bind_a_def when_a_def modify_a_def)
  show "next_status w \<noteq> 0 \<Longrightarrow>
           fst (unmount_image h g w) = Inl (SystemExit (next_status w))"
    using assms c fr
    by (auto simp: unmount_image_def seq_a_def bind_a_def when_a_def modify_a_def)
qed

lemma mount_image_twice: "seq_a (mount_image h g) (mount_image h g) w = mount_image h g w"
proof (cases "mount_image h g w")
  case (Pair r w1)
  show ?thesis
  proof (cases r)
    case (Inl e)
    with Pair show ?thesis by (simp add: seq_a_def bind_a_def)
  next
    case (Inr u)
    with Pair have "mounted w1" using mount_image_result by simp
    with Pair Inr show ?thesis by (simp add: seq_a_def bind_a_def mount_image_mounted)
  qed
qed

lemma unmount_image_twice:
  "seq_a (unmount_image h g) (unmount_image h g) w = unmount_image h g w"
proof (cases "unmount_image h g w")
  case (Pair r w1)
  show ?thesis
  proof (cases r)
    case (Inl e)
    with Pair show ?thesis by (simp add: seq_a_def bind_a_def)
  next
    case (Inr u)
    with Pair have "\<not> mounted w1" using unmount_image_result by simp
    with Pair Inr show ?thesis by (simp add: seq_a_def bind_a_def unmount_image_unmounted)
  qed
qed

text \<open>
  Claim C5. With the flag set, mount\_image runs no child process and leaves the world
  (the flag included) as it is. With the flag absent, unmount\_image runs no child
  process and leaves the world as it is. With the flag set, unmount\_image runs exactly
  one child process, sudo umount of the image path; when that unmount exits with 0 the
  flag is cleared and the call returns, and otherwise the fatal error of the unmount
  ends the call. Calling mount\_image twice in sequence is calling it once, and the same
  holds of unmount\_image.
\<close>

theorem mount_unmount_image_idempotent:
  "(mounted w \<longrightarrow> mount_image h g w = (Inr (), w)) \<and>
   (\<not> mounted w \<longrightarrow> unmount_image h g w = (Inr (), w)) \<and>
   (mounted w \<longrightarrow>
      log (snd (unmount_image h g w)) =
        log w @ [([''sudo'', ''umount'', img_path g], None, next_status w)] \<and>
      (next_status w = 0 \<longrightarrow>
         fst (unmount_image h g w) = Inr () \<and> \<not> mounted (snd (unmount_image h g w))) \<and>
      (next_status w \<noteq> 0 \<longrightarrow>
         fst (unmount_image h g w) = Inl (SystemExit (next_status w)))) \<and>
   seq_a (mount_image h g) (mount_image h g) w = mount_image h g w \<and>
   seq_a (unmount_image h g) (unmount_image h g) w = unmount_image h g w"
  by (simp add: mount_image_mounted unmount_image_unmounted unmount_image_mounted
      mount_image_twice unmount_image_twice)

theorem mount_unmount_image_idempotent_witness:
  "mounted (world0\<lparr>mounted := True\<rparr>) \<and>
   mount_image host0 globals0 (world0\<lparr>mounted := True\<rparr>) = (Inr (), world0\<lparr>mounted := True\<rparr>) \<and>
   \<not> mounted world0 \<and>
   unmount_image host0 globals0 world0 = (Inr (), world0) \<and>
   next_status (world0\<lparr>mounted := True\<rparr>) = 0 \<and>
   fst (unmount_image host0 globals0 (world0\<lparr>mounted := True\<rparr>)) = Inr () \<and>
   \<not> mounted (snd (unmount_image host0 globals0 (world0\<lparr>mounted := True\<rparr>))) \<and>
   next_status (world0\<lparr>mounted := True, pending := [32]\<rparr>) \<noteq> 0 \<and>
   fst (unmount_image host0 globals0 (world0\<lparr>mounted := True, pending := [32]\<rparr>)) =
     Inl (SystemExit 32)"
  using mount_unmount_image_idempotent[of "world0\<lparr>mounted := True\<rparr>" host0 globals0]
    mount_unmount_image_idempotent[of world0 host0 globals0]
    mount_unmount_image_idempotent[of "world0\<lparr>mounted := True, pending := [32]\<rparr>" host0 globals0]
  by (simp add: world0_def next_status_def)

subsection \<open>The processes a call of chroot runs\<close>

lemma quiet_return: "quiet (return_a x)"
  by (simp add: quiet_def return_a_def helper_procs_def)

lemma quiet_raise: "quiet (raise_a e)"
  by (simp add: quiet_def raise_a_def helper_procs_def)

lemma quiet_call: "quiet (call h argv)"
  unfolding quiet_def
proof (intro allI impI)
  fix w r w1 assume "call h argv w = (r, w1)"
  from call_frame(3)[OF this] show "\<exists>pre. log w1 = log w @ pre \<and> helper_procs pre"
    by (simp add: helper_procs_def)
qed

lemma quiet_bind:
  assumes "quiet m" and "\<And>x. quiet (k x)"
  shows "quiet (bind_a m k)"
  unfolding quiet_def
proof (intro allI impI)
  fix w r w2 assume b: "bind_a m k w = (r, w2)"
  obtain r1 w1 where m: "m w = (r1, w1)" by (cases "m w")
  from assms(1)[unfolded quiet_def, rule_format, OF m]
  obtain pre1 where p1: "log w1 = log w @ pre1" "helper_procs pre1"
    by blast
  show "\<exists>pre. log w2 = log w @ pre \<and> helper_procs pre"
  proof (cases r1)
    case (Inl e)
    with b m have "w2 = w1" by (simp add: bind_a_def)
    with p1 show ?thesis by blast
  next
    case (Inr x)
    with b m have "k x w1 = (r, w2)" by (simp add: bind_a_def)
    from assms(2)[of x, unfolded quiet_def, rule_format, OF this]
    obtain pre2 where "log w2 = log w1 @ pre2" "helper_procs pre2"
      by blast
    with p1 have "log w2 = log w @ (pre1 @ pre2) \<and> helper_procs (pre1 @ pre2)"
      by (auto simp: helper_procs_def)
    then show ?thesis by blast
  qed
qed

lemma quiet_seq: "quiet m \<Longrightarrow> quiet k \<Longrightarrow> quiet (seq_a m k)"
  by (simp add: seq_a_def quiet_bind)

lemma quiet_steps: "(\<And>m. m \<in> set ms \<Longrightarrow> quiet m) \<Longrightarrow> quiet (steps ms)"
  by (induction ms) (simp_all add: quiet_return quiet_seq)

lemma quiet_when: "quiet m \<Longrightarrow> quiet (when_a b m)"
  by (simp add: when_a_def quiet_return)

lemma quiet_reader: "(\<And>w0. quiet (m w0)) \<Longrightarrow> quiet (\<lambda>w. m w w)"
  by (auto simp: quiet_def)

lemma quiet_check_output: "quiet (check_output_infocmp h)"
  unfolding quiet_def
proof (intro allI impI)
  fix w r w1 assume a: "check_output_infocmp h w = (r, w1)"
  obtain s w' where sp: "spawn h [''infocmp''] None w = (s, w')"
    by (cases "spawn h [''infocmp''] None w")
  with a have "w1 = w'" by (auto simp: check_output_infocmp_def split: if_splits)
  with spawn_frame(3)[OF sp] show "\<exists>pre. log w1 = log w @ pre \<and> helper_procs pre"
    by (simp add: helper_procs_def)
qed

lemma quiet_when_reader: "quiet m \<Longrightarrow> quiet (\<lambda>w. when_a (P w) m w)"
  by (auto simp: quiet_def when_a_def return_a_def helper_procs_def)

lemma quiet_copy_terminfo: "quiet (copy_terminfo h g)"
  unfolding copy_terminfo_def
proof (rule quiet_bind[OF quiet_check_output])
  fix out
  show "quiet (case first_line out of Inl e \<Rightarrow> raise_a e
     | Inr raw \<Rightarrow>
           (let path = strip (after_colon raw) in
            (\<lambda>w. when_a (path \<noteq> [] \<and> path \<in> files w)
               (let bdir = basename (dirname path);
                    dest = path_join (path_join (img_path g) ''usr/share/terminfo'') bdir
                in steps [call h [''sudo'', ''mkdir'', ''-p'', dest],
                          call h [''sudo'', ''cp'', ''-a'', path, dest]]) w)))"
    by (cases "first_line out")
      (auto simp: Let_def quiet_raise intro!: quiet_when_reader quiet_seq quiet_call quiet_return)
qed

lemma chroot_log:
  assumes "chroot h g cmd as_root fi w = (r, w')"
  shows "\<exists>pre. helper_procs pre \<and>
           ((log w' = log w @ pre \<and> (\<exists>e. r = Inl e)) \<or>
            (\<exists>args n. cmd_args cmd = Some args \<and>
               log w' = log w @ pre @ [child_of h g as_root fi args n] \<and>
               r = (if n = 0 then Inr () else Inl (SystemExit n))))"
proof (cases "cmd_args cmd")
  case None
  with assms have "w' = w" "r = Inl ValueError" by (auto simp: chroot_def raise_a_def)
  then show ?thesis by (intro exI[of _ "[]"]) (simp add: helper_procs_def)
next
  case (Some args)
  let ?env = "chroot_env h g as_root fi"
  let ?argv = "chroot_argv h g as_root ?env args"
  let ?pre = "seq_a (copy_terminfo h g)
     (call h [''sudo'', ''cp'', ''/etc/resolv.conf'', path_join (img_path g) ''etc''])"
  have q: "quiet ?pre" by (simp add: quiet_seq quiet_copy_terminfo quiet_call)
  obtain r1 w1 where p: "?pre w = (r1, w1)" by (cases "?pre w")
  from q[unfolded quiet_def, rule_format, OF p]
  obtain pre where pre: "log w1 = log w @ pre" "helper_procs pre"
    by blast
  have ch: "chroot h g cmd as_root fi w =
     (case r1 of Inl e \<Rightarrow> (Inl e, w1)
      | Inr u \<Rightarrow> (case spawn h ?argv (Some ?env) w1 of (ret, w2) \<Rightarrow>
                     if ret \<noteq> 0 then (Inl (SystemExit ret), w2) else (Inr (), w2)))"
    using p Some
    by (auto simp: chroot_def Let_def seq_a_def bind_a_def return_a_def
        split: sum.splits prod.splits)
  show ?thesis
  proof (cases r1)
    case (Inl e)
    with ch assms have "w' = w1" "r = Inl e" by auto
    with pre show ?thesis by blast
  next
    case (Inr u)
    obtain ret w2 where sp: "spawn h ?argv (Some ?env) w1 = (ret, w2)"
      by (cases "spawn h ?argv (Some ?env) w1")
    with ch assms Inr have "w' = w2" "r = (if ret = 0 then Inr () else Inl (SystemExit ret))"
      by (auto split: if_splits)
    moreover from spawn_frame(3)[OF sp] pre
    have "log w2 = log w @ pre @ [child_of h g as_root fi args ret]"
      by (simp add: child_of_def)
    ultimately show ?thesis using pre Some by blast
  qed
qed

lemma children_helpers: "helper_procs ps \<Longrightarrow> children ps = []"
  by (auto simp: helper_procs_def children_def filter_empty_conv)

lemma children_child:
  "helper_procs ps \<Longrightarrow>
   children (ps @ [child_of h g as_root fi args n]) = [child_of h g as_root fi args n]"
  using children_helpers[of ps] by (simp add: children_def child_of_def)

subsection \<open>C4: the identity the chroot command runs under\<close>

text \<open>
  Claim C4. With \<open>as_root\<close> false the environment built by \<open>chroot\<close> has HOME set to
  /home/U and USER set to U for the host user U, and the argument vector is sudo chroot
  followed by --userspec=I:G for the effective uid I and gid G, then the image path. With
  \<open>as_root\<close> true HOME is /root, USER is root, and the image path follows sudo chroot
  directly, with no --userspec. Every child a call of \<open>chroot\<close> starts with an
  environment of its own is started with exactly this argument vector and environment.
\<close>

theorem chroot_identity:
  "map_of (chroot_env h g False fi) ''HOME'' = Some (''/home/'' @ h_user h) \<and>
   map_of (chroot_env h g False fi) ''USER'' = Some (h_user h) \<and>
   chroot_argv h g False env args =
     [''sudo'', ''chroot'',
      ''--userspec='' @ string_of_nat (h_euid h) @ '':'' @ string_of_nat (h_egid h),
      img_path g, ''linux'' @ arch g, ''--'', ''env'']
     @ map (\<lambda>(k, v). k @ ''='' @ v) env @ args \<and>
   map_of (chroot_env h g True fi) ''HOME'' = Some ''/root'' \<and>
   map_of (chroot_env h g True fi) ''USER'' = Some ''root'' \<and>
   chroot_argv h g True env args =
     [''sudo'', ''chroot'', img_path g, ''linux'' @ arch g, ''--'', ''env'']
     @ map (\<lambda>(k, v). k @ ''='' @ v) env @ args \<and>
   (chroot h g cmd as_root fi w = (r, w') \<longrightarrow>
      (\<forall>c \<in> set (children (drop (length (log w)) (log w'))).
         \<exists>args' n. cmd_args cmd = Some args' \<and> c = child_of h g as_root fi args' n))"
proof -
  have "\<forall>c \<in> set (children (drop (length (log w)) (log w'))).
         \<exists>args' n. cmd_args cmd = Some args' \<and> c = child_of h g as_root fi args' n"
    if "chroot h g cmd as_root fi w = (r, w')"
    using chroot_log[OF that] by (auto simp: children_helpers children_child)
  then show ?thesis
    by (simp add: chroot_env_def chroot_argv_def)
qed

theorem chroot_identity_witness:
  "map_of (chroot_env host0 globals0 False False) ''HOME'' = Some ''/home/bob'' \<and>
   map_of (chroot_env host0 globals0 False False) ''USER'' = Some ''bob'' \<and>
   chroot_argv host0 globals0 False (chroot_env host0 globals0 False False) [''make''] ! 2 =
     ''--userspec=1000:1000'' \<and>
   map_of (chroot_env host0 globals0 True False) ''HOME'' = Some ''/root'' \<and>
   map_of (chroot_env host0 globals0 True False) ''USER'' = Some ''root'' \<and>
   chroot_argv host0 globals0 True (chroot_env host0 globals0 True False) [''make''] ! 2 =
     ''/w/bypy/b/linux/64/chroot'' \<and>
   children (drop (length (log world0))
     (log (snd (chroot host0 globals0 (CmdList [''make'']) False False world0)))) =
     [child_of host0 globals0 False False [''make''] 0]"
proof -
  have n: "string_of_nat 1000 = ''1000''"
    by code_simp
  have ev: "children (drop (length (log world0))
     (log (snd (chroot host0 globals0 (CmdList [''make'']) False False world0)))) =
     [child_of host0 globals0 False False [''make''] 0]"
    by code_simp
  show ?thesis
    using chroot_identity[where h = host0 and g = globals0 and fi = False
        and env = "chroot_env host0 globals0 False False" and args = "[''make'']"
        and cmd = "CmdList [''make'']" and as_root = False and w = world0
        and r = "fst (chroot host0 globals0 (CmdList [''make'']) False False world0)"
        and w' = "snd (chroot host0 globals0 (CmdList [''make'']) False False world0)"]
      chroot_identity[where h = host0 and g = globals0 and fi = False
        and env = "chroot_env host0 globals0 True False" and args = "[''make'']"]
      n ev
    by (simp add: host0_def globals0_def)
qed

subsection \<open>C6: the exit status of the command run in the chroot\<close>

text \<open>
  Claim C6. Among the processes a call of \<open>chroot\<close> runs, the command itself is started
  at most once, and last. When it was not started, an earlier step failed and the call
  raises. When it was started and exits with status 0 the call returns; when it exits
  with a status n other than 0 the call raises SystemExit carrying n. The command is
  never started a second time and its failure is never turned into a return.
\<close>

theorem chroot_exit_status:
  assumes "chroot h g cmd as_root fi w = (r, w')"
  shows "\<exists>ps. log w' = log w @ ps \<and>
     (case children ps of
        [] \<Rightarrow> (\<exists>e. r = Inl e)
      | [c] \<Rightarrow>
          last ps = c \<and>
          (\<exists>args. cmd_args cmd = Some args \<and> c = child_of h g as_root fi args (snd (snd c))) \<and>
          r = (if snd (snd c) = 0 then Inr () else Inl (SystemExit (snd (snd c))))
      | _ \<Rightarrow> False)"
proof -
  from chroot_log[OF assms] obtain pre where pre: "helper_procs pre"
    and alt: "(log w' = log w @ pre \<and> (\<exists>e. r = Inl e)) \<or>
            (\<exists>args n. cmd_args cmd = Some args \<and>
               log w' = log w @ pre @ [child_of h g as_root fi args n] \<and>
               r = (if n = 0 then Inr () else Inl (SystemExit n)))"
    by blast
  from alt show ?thesis
  proof
    assume "log w' = log w @ pre \<and> (\<exists>e. r = Inl e)"
    with pre show ?thesis
      by (intro exI[of _ pre]) (simp add: children_helpers)
  next
    assume "\<exists>args n. cmd_args cmd = Some args \<and>
               log w' = log w @ pre @ [child_of h g as_root fi args n] \<and>
               r = (if n = 0 then Inr () else Inl (SystemExit n))"
    then obtain args n where a: "cmd_args cmd = Some args"
      "log w' = log w @ pre @ [child_of h g as_root fi args n]"
      "r = (if n = 0 then Inr () else Inl (SystemExit n))"
      by blast
    have s: "snd (snd (child_of h g as_root fi args n)) = n"
      by (simp add: child_of_def)
    show ?thesis
      using a pre s
      by (intro exI[of _ "pre @ [child_of h g as_root fi args n]"])
        (auto simp: children_child)
  qed
qed

theorem chroot_exit_status_witness:
  "fst (chroot host0 globals0 (CmdStr ''apt-get update'') True True world0) = Inr () \<and>
   children (log (snd (chroot host0 globals0 (CmdStr ''apt-get update'') True True world0))) =
     [child_of host0 globals0 True True [''apt-get'', ''update''] 0] \<and>
   fst (chroot host0 globals0 (CmdStr ''apt-get update'') True True
          (world0\<lparr>pending := [0, 0, 7]\<rparr>)) = Inl (SystemExit 7) \<and>
   children (log (snd (chroot host0 globals0 (CmdStr ''apt-get update'') True True
          (world0\<lparr>pending := [0, 0, 7]\<rparr>)))) =
     [child_of host0 globals0 True True [''apt-get'', ''update''] 7]"
proof -
  have ev: "fst (chroot host0 globals0 (CmdStr ''apt-get update'') True True world0) = Inr () \<and>
   children (log (snd (chroot host0 globals0 (CmdStr ''apt-get update'') True True world0))) =
     [child_of host0 globals0 True True [''apt-get'', ''update''] 0] \<and>
   fst (chroot host0 globals0 (CmdStr ''apt-get update'') True True
          (world0\<lparr>pending := [0, 0, 7]\<rparr>)) = Inl (SystemExit 7) \<and>
   children (log (snd (chroot host0 globals0 (CmdStr ''apt-get update'') True True
          (world0\<lparr>pending := [0, 0, 7]\<rparr>)))) =
     [child_of host0 globals0 True True [''apt-get'', ''update''] 7]"
    by code_simp
  show ?thesis
    using chroot_exit_status[of host0 globals0 "CmdStr ''apt-get update''" True True world0
        "fst (chroot host0 globals0 (CmdStr ''apt-get update'') True True world0)"
        "snd (chroot host0 globals0 (CmdStr ''apt-get update'') True True world0)"]
      ev
    by simp
qed

subsection \<open>What the unmount loop removes\<close>

lemma remove_first_filter:
  "(\<And>x. P x \<Longrightarrow> \<not> Q x) \<Longrightarrow> filter Q (remove_first P xs) = filter Q xs"
  by (induction xs) auto

lemma remove_first_mset:
  "\<exists>x \<in> set xs. P x \<Longrightarrow> \<exists>x. P x \<and> mset xs = add_mset x (mset (remove_first P xs))"
  by (induction xs) auto

lemma remove_last_mset:
  "\<exists>x \<in> set xs. P x \<Longrightarrow> \<exists>x. P x \<and> mset xs = add_mset x (mset (remove_last P xs))"
  using remove_first_mset[of "rev xs" P] by (simp add: remove_last_def)

lemma detach_rev_subset: "set (detach_rev P B xs) \<subseteq> set xs"
  by (induction xs) auto

lemma detach_last_subset: "set (detach_last P B xs) \<subseteq> set xs"
  using detach_rev_subset[of P B "rev xs"] by (simp add: detach_last_def)

lemma detach_rev_filter:
  "\<forall>x \<in> set xs. P x \<or> B x \<longrightarrow> \<not> Q x \<Longrightarrow> filter Q (detach_rev P B xs) = filter Q xs"
  by (induction xs) auto

lemma detach_last_filter:
  assumes "\<forall>x \<in> set xs. P x \<or> B x \<longrightarrow> \<not> Q x"
  shows "filter Q (detach_last P B xs) = filter Q xs"
proof -
  from assms have "\<forall>x \<in> set (rev xs). P x \<or> B x \<longrightarrow> \<not> Q x" by simp
  from detach_rev_filter[OF this] have "filter Q (rev (detach_rev P B (rev xs))) = filter Q xs"
    by (simp add: rev_filter[symmetric])
  then show ?thesis by (simp add: detach_last_def)
qed

lemma detach_rev_selected:
  "\<forall>x \<in> set xs. B x \<longrightarrow> \<not> S x \<Longrightarrow>
   filter S (detach_rev P B xs) = filter S (remove_first P xs)"
  by (induction xs) auto

lemma remove_first_id: "\<forall>x \<in> set xs. \<not> P x \<Longrightarrow> remove_first P xs = xs"
  by (induction xs) auto

lemma detach_last_selected:
  assumes "\<forall>x \<in> set xs. B x \<longrightarrow> \<not> S x"
  shows "filter S (detach_last P B xs) = filter S (remove_last P xs)"
proof (cases "\<exists>x \<in> set xs. P x")
  case True
  from assms have "\<forall>x \<in> set (rev xs). B x \<longrightarrow> \<not> S x" by simp
  from detach_rev_selected[OF this, of P]
  have "filter S (rev (detach_rev P B (rev xs))) = filter S (rev (remove_first P (rev xs)))"
    by (simp add: rev_filter[symmetric])
  with True show ?thesis by (simp add: detach_last_def remove_last_def)
next
  case False
  then have "remove_first P (rev xs) = rev xs" by (simp add: remove_first_id)
  with False show ?thesis by (simp add: detach_last_def remove_last_def)
qed

lemma detach_last_mset:
  assumes "\<exists>x \<in> set xs. P x" and "\<forall>x \<in> set xs. B x \<longrightarrow> \<not> S x" and "\<And>x. P x \<Longrightarrow> S x"
  shows "\<exists>x. P x \<and> filter_mset S (mset xs) = add_mset x (filter_mset S (mset (detach_last P B xs)))"
proof -
  from remove_last_mset[OF assms(1)] obtain x where x: "P x"
    "mset xs = add_mset x (mset (remove_last P xs))" by blast
  from x(2) have "filter_mset S (mset xs) = filter_mset S (add_mset x (mset (remove_last P xs)))"
    by simp
  also have "\<dots> = add_mset x (filter_mset S (mset (remove_last P xs)))"
    using assms(3)[OF x(1)] by simp
  also have "filter_mset S (mset (remove_last P xs)) = mset (filter S (remove_last P xs))"
    by simp
  also have "filter S (remove_last P xs) = filter S (detach_last P B xs)"
    using detach_last_selected[OF assms(2), of P] by simp
  finally show ?thesis using x(1) by auto
qed

lemma path_below_prefix: "path_below p d \<Longrightarrow> prefix p d \<and> length p < length d"
proof -
  assume a: "path_below p d"
  then have "prefix p d"
    by (auto simp: path_below_def dest: append_prefixD split: if_splits)
  moreover from a have "d \<noteq> p" by (simp add: path_below_def)
  ultimately show ?thesis
    by (auto simp: prefix_def)
qed

lemma find_sort_key_least:
  assumes "find P (sort_key f xs) = Some x" and "y \<in> set xs" and "P y"
  shows "f x \<le> f y"
proof -
  have "\<And>ys. sorted (map f ys) \<Longrightarrow> find P ys = Some x \<Longrightarrow> y \<in> set ys \<Longrightarrow> f x \<le> f y"
  proof -
    fix ys show "sorted (map f ys) \<Longrightarrow> find P ys = Some x \<Longrightarrow> y \<in> set ys \<Longrightarrow> f x \<le> f y"
      using assms(3) by (induction ys) (auto split: if_splits)
  qed
  from this[of "sort_key f xs"] assms show ?thesis by simp
qed

lemma find_None_D: "find P xs = None \<Longrightarrow> x \<in> set xs \<Longrightarrow> \<not> P x"
  by (auto simp: find_None_iff)

lemma get_mounts_loop_wf:
  "get_mounts_loop h ls ans = Inr m \<Longrightarrow> \<forall>l \<in> set ls. line_fields l \<noteq> None"
  by (induction ls arbitrary: ans) (auto split: option.splits)

lemma get_mounts_Inr:
  "get_mounts h w = Inr m \<longleftrightarrow> \<not> undecodable w \<and> get_mounts_loop h (mountinfo w) [] = Inr m"
  by (simp add: get_mounts_def)

lemma get_mounts_wf:
  "get_mounts h w = Inr m \<Longrightarrow> l \<in> set (mountinfo w) \<Longrightarrow> line_dest h l \<noteq> None"
  using get_mounts_loop_wf[of h "mountinfo w" "[]" m] by (auto simp: get_mounts_Inr line_dest_def)

lemma next_umount_None:
  assumes "next_umount h g w = Inr None" and "l \<in> set (mountinfo w)"
  shows "\<not> sel_line h g l" and "line_dest h l \<noteq> None"
proof -
  from assms obtain m where m: "get_mounts h w = Inr m"
    and f: "find (selected g) (by_length_desc (map fst m)) = None"
    by (auto simp: next_umount_def split: sum.splits)
  from get_mounts_wf[OF m assms(2)] show wf: "line_dest h l \<noteq> None" .
  then obtain d where d: "line_dest h l = Some d" by auto
  with get_mounts_keys[OF m] assms(2) have "d \<in> set (by_length_desc (map fst m))"
    by (auto simp: by_length_desc_def)
  from find_None_D[OF f this] d show "\<not> sel_line h g l"
    by (simp add: sel_line_def)
qed

lemma next_umount_longest:
  assumes "next_umount h g w = Inr (Some mp)" and "l \<in> set (mountinfo w)"
    and "line_dest h l = Some d" and "selected g d"
  shows "length d \<le> length mp"
proof -
  from assms obtain m where m: "get_mounts h w = Inr m"
    and f: "find (selected g) (by_length_desc (map fst m)) = Some mp"
    by (auto simp: next_umount_def split: sum.splits)
  from get_mounts_keys[OF m] assms have "d \<in> set (map fst m)" by auto
  from find_sort_key_least[OF f[unfolded by_length_desc_def] this assms(4)]
  show ?thesis by simp
qed

lemma next_umount_error:
  "next_umount h g w = Inl e \<Longrightarrow> e = ValueError \<or> e = UnicodeDecodeError"
proof -
  have "get_mounts_loop h ls ans = Inl e \<Longrightarrow> e = ValueError" for ls ans
    by (induction ls arbitrary: ans) (auto split: option.splits)
  then show "next_umount h g w = Inl e \<Longrightarrow> e = ValueError \<or> e = UnicodeDecodeError"
    by (auto simp: next_umount_def get_mounts_def split: sum.splits if_splits)
qed

text \<open>
  A line that lies below the path the loop unmounts next is not one the loop selects:
  the loop takes the longest selected path of the table. And every line a round
  detaches has a mount point that starts with \<open>img_path\<close>.
\<close>

lemma below_not_selected:
  assumes "next_umount h g w = Inr (Some mp)" and "l \<in> set (mountinfo w)"
    and "line_below h mp l"
  shows "\<not> sel_line h g l"
proof
  assume s: "sel_line h g l"
  from assms(3) obtain d where d: "line_dest h l = Some d" "path_below mp d"
    by (auto simp: line_below_def split: option.splits)
  with s have "selected g d" by (simp add: sel_line_def)
  from next_umount_longest[OF assms(1,2) d(1) this] path_below_prefix[OF d(2)]
  show False by simp
qed

lemma detached_inside:
  assumes "selected g mp" and "line_dest h l = Some mp \<or> line_below h mp l"
  shows "\<exists>d. line_dest h l = Some d \<and> prefix (img_path g) d"
proof -
  from assms(1) have p: "prefix (img_path g) mp" by (simp add: selected_def)
  from assms(2) show ?thesis
  proof
    assume "line_dest h l = Some mp"
    with p show ?thesis by simp
  next
    assume "line_below h mp l"
    then obtain d where d: "line_dest h l = Some d" "path_below mp d"
      by (auto simp: line_below_def split: option.splits)
    from path_below_prefix[OF d(2)] p have "prefix (img_path g) d"
      by (auto intro: prefix_order.trans)
    with d(1) show ?thesis by simp
  qed
qed

lemma umounted_append: "umounted (ps @ qs) = umounted ps @ umounted qs"
  by (simp add: umounted_def)

lemma umounted_umount: "umounted [(umount_cmd mp, env, s)] = [mp]"
  by (simp add: umounted_def umount_cmd_def)

lemma umount_loop_ok:
  "umount_loop h g w = (Inr (), w') \<Longrightarrow>
     (\<forall>l \<in> set (mountinfo w'). \<not> sel_line h g l) \<and>
     files w' = files w \<and> mounted w' = mounted w \<and>
     (\<exists>ps. log w' = log w @ map (\<lambda>p. (umount_cmd p, None, 0)) ps \<and>
           sorted_wrt (\<lambda>a b. length b \<le> length a) ps \<and>
           mset ps = image_mset (\<lambda>l. the (line_dest h l))
                       (filter_mset (sel_line h g) (mset (mountinfo w))))"
proof (induction h g w rule: umount_loop.induct)
  case (1 h g w)
  show ?case
  proof (cases "next_umount h g w")
    case (Inl e)
    with "1.prems" show ?thesis by simp
  next
    case (Inr x)
    show ?thesis
    proof (cases x)
      case None
      with Inr "1.prems" have eq: "w' = w" by simp
      from None Inr have a: "\<forall>l \<in> set (mountinfo w). \<not> sel_line h g l"
        using next_umount_None(1) by blast
      then have "filter_mset (sel_line h g) (mset (mountinfo w)) = {#}"
        by auto
      with eq a show ?thesis by (auto intro!: exI[of _ "[]"])
    next
      case (Some mp)
      with Inr have n: "next_umount h g w = Inr (Some mp)" by simp
      obtain r w1 where c: "call h (umount_cmd mp) w = (r, w1)"
        by (cases "call h (umount_cmd mp) w")
      with n "1.prems" obtain u where r: "r = Inr u" and rest: "umount_loop h g w1 = (Inr (), w')"
        by (cases r) auto
      note cf = call_frame[OF c]
      from c r have cu: "call h (umount_cmd mp) w = (Inr u, w1)" by simp
      note um = call_umount[OF cu]
      from "1.IH"[OF Inr Some c[symmetric] r rest]
      obtain ps where ih: "\<forall>l \<in> set (mountinfo w'). \<not> sel_line h g l"
        "files w' = files w1" "mounted w' = mounted w1"
        "log w' = log w1 @ map (\<lambda>p. (umount_cmd p, None, 0)) ps"
        "sorted_wrt (\<lambda>a b. length b \<le> length a) ps"
        "mset ps = image_mset (\<lambda>l. the (line_dest h l))
                       (filter_mset (sel_line h g) (mset (mountinfo w1)))"
        by blast
      let ?P = "\<lambda>l. line_dest h l = Some mp"
      from next_umount_Some[OF n] have selmp: "selected g mp"
        and ex: "\<exists>l \<in> set (mountinfo w). ?P l" by auto
      have Psel: "\<And>l. ?P l \<Longrightarrow> sel_line h g l"
        using selmp by (simp add: sel_line_def)
      have Bsel: "\<forall>l \<in> set (mountinfo w). line_below h mp l \<longrightarrow> \<not> sel_line h g l"
        using below_not_selected[OF n] by blast
      from detach_last_mset[of "mountinfo w" ?P "line_below h mp" "sel_line h g", OF ex Bsel Psel]
        um(1)
      obtain x where x: "?P x"
        "filter_mset (sel_line h g) (mset (mountinfo w)) =
           add_mset x (filter_mset (sel_line h g) (mset (mountinfo w1)))"
        by auto
      have t4: "mset (mp # ps) = image_mset (\<lambda>l. the (line_dest h l))
                       (filter_mset (sel_line h g) (mset (mountinfo w)))"
        using ih(6) x by simp
      have sub: "set (mountinfo w1) \<subseteq> set (mountinfo w)"
        using um(1) detach_last_subset[of ?P "line_below h mp" "mountinfo w"] by simp
      have le: "length p \<le> length mp" if "p \<in> set ps" for p
      proof -
        from that ih(6) have "p \<in># image_mset (\<lambda>l. the (line_dest h l))
                       (filter_mset (sel_line h g) (mset (mountinfo w1)))"
          by (metis set_mset_mset)
        then obtain l where l: "l \<in> set (mountinfo w1)" "sel_line h g l" "p = the (line_dest h l)"
          by auto
        from l(1) sub have lw: "l \<in> set (mountinfo w)" by blast
        from l(2) obtain d where d: "line_dest h l = Some d" "selected g d"
          by (auto simp: sel_line_def split: option.splits)
        from next_umount_longest[OF n lw d] l(3) d(1) show ?thesis by simp
      qed
      have t3: "sorted_wrt (\<lambda>a b. length b \<le> length a) (mp # ps)"
        using ih(5) le by simp
      have t2: "log w' = log w @ map (\<lambda>p. (umount_cmd p, None, 0)) (mp # ps)"
        using ih(4) cf(3) um(3) by simp
      from ih(1) t2 t3 t4 ih(2,3) um(2) cf(1) show ?thesis by blast
    qed
  qed
qed

lemma umount_loop_error:
  "umount_loop h g w = (Inl e, w') \<Longrightarrow>
     e = ValueError \<or> e = UnicodeDecodeError \<or> (\<exists>n. e = SystemExit n)"
proof (induction h g w rule: umount_loop.induct)
  case (1 h g w)
  show ?case
  proof (cases "next_umount h g w")
    case (Inl e')
    with "1.prems" have "e = e'" by simp
    with next_umount_error[OF Inl] show ?thesis by auto
  next
    case (Inr x)
    show ?thesis
    proof (cases x)
      case None
      with Inr "1.prems" show ?thesis by simp
    next
      case (Some mp)
      obtain r w1 where c: "call h (umount_cmd mp) w = (r, w1)"
        by (cases "call h (umount_cmd mp) w")
      show ?thesis
      proof (cases r)
        case (Inl e')
        with c Inr Some "1.prems" have "e = e'" by simp
        with call_frame(4)[OF c] Inl show ?thesis by (auto split: if_splits)
      next
        case r: (Inr u)
        with c Inr Some "1.prems" have "umount_loop h g w1 = (Inl e, w')" by simp
        from "1.IH"[OF Inr Some c[symmetric] r this] show ?thesis .
      qed
    qed
  qed
qed

lemma get_mounts_loop_total:
  "\<forall>l \<in> set ls. line_fields l \<noteq> None \<Longrightarrow> \<exists>m. get_mounts_loop h ls ans = Inr m"
  by (induction ls arbitrary: ans) (auto split: option.splits)

lemma get_mounts_total:
  "\<not> undecodable w \<Longrightarrow> \<forall>l \<in> set (mountinfo w). line_fields l \<noteq> None \<Longrightarrow>
   \<exists>m. get_mounts h w = Inr m"
  by (simp add: get_mounts_def get_mounts_loop_total)

lemma umount_loop_succeeds:
  "\<not> undecodable w \<Longrightarrow> \<forall>l \<in> set (mountinfo w). line_fields l \<noteq> None \<Longrightarrow>
   \<forall>s \<in> set (pending w). s = 0 \<Longrightarrow>
   \<exists>w'. umount_loop h g w = (Inr (), w')"
proof (induction h g w rule: umount_loop.induct)
  case (1 h g w)
  from get_mounts_total[OF "1.prems"(1,2), of h] obtain m where "get_mounts h w = Inr m"
    by blast
  then obtain x where n: "next_umount h g w = Inr x"
    by (simp add: next_umount_def)
  show ?case
  proof (cases x)
    case None
    with n show ?thesis by simp
  next
    case (Some mp)
    obtain r w1 where c: "call h (umount_cmd mp) w = (r, w1)"
      by (cases "call h (umount_cmd mp) w")
    from "1.prems"(3) have z: "next_status w = 0"
      by (auto simp: next_status_def split: list.splits)
    with call_frame(4)[OF c] have r: "r = Inr ()" by simp
    from c r have cu: "call h (umount_cmd mp) w = (Inr (), w1)" by simp
    have wf1: "\<forall>l \<in> set (mountinfo w1). line_fields l \<noteq> None"
      using call_umount(1)[OF cu]
        detach_last_subset[of "\<lambda>l. line_dest h l = Some mp" "line_below h mp" "mountinfo w"]
        "1.prems"(2) by auto
    have u1: "\<not> undecodable w1"
      using call_umount(4)[OF cu] "1.prems"(1) by simp
    have p1: "\<forall>s \<in> set (pending w1). s = 0"
      using call_frame(2)[OF c] "1.prems"(3) by (auto dest: in_set_dropD)
    from "1.IH"[OF n Some c[symmetric] r u1 wf1 p1] n Some c r show ?thesis by simp
  qed
qed

lemma umount_loop_safe:
  "umount_loop h g w = (r, w') \<Longrightarrow>
     filter (\<lambda>l. \<not> (\<exists>d. line_dest h l = Some d \<and> prefix (img_path g) d)) (mountinfo w') =
       filter (\<lambda>l. \<not> (\<exists>d. line_dest h l = Some d \<and> prefix (img_path g) d)) (mountinfo w) \<and>
     set (mountinfo w') \<subseteq> set (mountinfo w) \<and>
     (\<exists>qs. log w' = log w @ qs \<and>
        (\<forall>p \<in> set (umounted qs).
           selected g p \<and> (\<exists>l \<in> set (mountinfo w). line_dest h l = Some p)) \<and>
        sorted_wrt (\<lambda>a b. length b \<le> length a) (umounted qs))"
proof (induction h g w rule: umount_loop.induct)
  case (1 h g w)
  let ?Q = "\<lambda>l. \<not> (\<exists>d. line_dest h l = Some d \<and> prefix (img_path g) d)"
  show ?case
  proof (cases "next_umount h g w")
    case (Inl e)
    with "1.prems" show ?thesis by (auto simp: umounted_def)
  next
    case (Inr x)
    show ?thesis
    proof (cases x)
      case None
      with Inr "1.prems" show ?thesis by (auto simp: umounted_def)
    next
      case (Some mp)
      with Inr have n: "next_umount h g w = Inr (Some mp)" by simp
      obtain r1 w1 where c: "call h (umount_cmd mp) w = (r1, w1)"
        by (cases "call h (umount_cmd mp) w")
      note cf = call_frame[OF c]
      from next_umount_Some[OF n] have selmp: "selected g mp"
        and ex: "\<exists>l \<in> set (mountinfo w). line_dest h l = Some mp" by auto
      let ?e = "(umount_cmd mp, None, next_status w)"
      have um1: "umounted [?e] = [mp]"
        by (rule umounted_umount)
      show ?thesis
      proof (cases r1)
        case (Inl e)
        with c n "1.prems" have "w' = w1" by simp
        moreover from c Inl have "mountinfo w1 = mountinfo w"
          by (auto simp: call_def spawn_def Let_def split: if_splits)
        ultimately show ?thesis using cf(3) um1 selmp ex by auto
      next
        case (Inr u)
        with c n "1.prems" have rest: "umount_loop h g w1 = (r, w')" by simp
        from c Inr have cu: "call h (umount_cmd mp) w = (Inr u, w1)" by simp
        let ?P = "\<lambda>l. line_dest h l = Some mp"
        have sub: "set (mountinfo w1) \<subseteq> set (mountinfo w)"
          using call_umount(1)[OF cu] detach_last_subset[of ?P "line_below h mp" "mountinfo w"]
          by simp
        from "1.IH"[OF \<open>next_umount h g w = Inr x\<close> Some c[symmetric] Inr rest]
        obtain qs where ih: "filter ?Q (mountinfo w') = filter ?Q (mountinfo w1)"
          "set (mountinfo w') \<subseteq> set (mountinfo w1)"
          "log w' = log w1 @ qs"
          "\<forall>p \<in> set (umounted qs).
             selected g p \<and> (\<exists>l \<in> set (mountinfo w1). line_dest h l = Some p)"
          "sorted_wrt (\<lambda>a b. length b \<le> length a) (umounted qs)"
          by blast
        have u: "umounted (?e # qs) = mp # umounted qs"
          using um1 umounted_append[of "[?e]" qs] by simp
        have ins: "\<forall>l \<in> set (mountinfo w). ?P l \<or> line_below h mp l \<longrightarrow> \<not> ?Q l"
          using detached_inside[OF selmp] by blast
        have f: "filter ?Q (mountinfo w1) = filter ?Q (mountinfo w)"
          using call_umount(1)[OF cu] detach_last_filter[OF ins] by simp
        have l: "log w' = log w @ (?e # qs)"
          using ih(3) cf(3) by simp
        have m: "\<forall>p \<in> set (umounted (?e # qs)).
             selected g p \<and> (\<exists>l \<in> set (mountinfo w). line_dest h l = Some p)"
          using ih(4) u selmp ex sub by auto
        have le: "length p \<le> length mp" if "p \<in> set (umounted qs)" for p
        proof -
          from that ih(4) sub obtain l where "l \<in> set (mountinfo w)" "line_dest h l = Some p"
            "selected g p" by blast
          from next_umount_longest[OF n this] show ?thesis .
        qed
        have s: "sorted_wrt (\<lambda>a b. length b \<le> length a) (umounted (?e # qs))"
          using ih(5) le u by simp
        have f2: "filter ?Q (mountinfo w') = filter ?Q (mountinfo w)"
          using f ih(1) by simp
        have sub2: "set (mountinfo w') \<subseteq> set (mountinfo w)"
          using sub ih(2) by blast
        from f2 sub2 l m s show ?thesis by blast
      qed
    qed
  qed
qed

lemma umounted_map: "umounted (map (\<lambda>p. (umount_cmd p, None, 0)) ps) = ps"
  by (induction ps) (simp_all add: umounted_def umount_cmd_def)

lemma umount_all_split:
  "umount_all h g w = (r, w') \<Longrightarrow>
   \<exists>r1 w1. umount_loop h g w = (r1, w1) \<and> log w' = log w1 \<and> mountinfo w' = mountinfo w1 \<and>
     files w' = files w1 \<and>
     (case r1 of Inl e \<Rightarrow> r = Inl e \<and> w' = w1
      | Inr u \<Rightarrow> (if mounted w1 then r = Inr () \<and> w' = w1\<lparr>mounted := False\<rparr>
                  else r = Inl AttributeError \<and> w' = w1))"
  by (cases "umount_loop h g w")
    (auto simp: umount_all_def seq_a_def bind_a_def split: sum.splits if_splits)

subsection \<open>What umount\_all unmounts, in which order, and what it leaves\<close>

lemma sel_line_iff:
  "sel_line h g l \<longleftrightarrow>
     (\<exists>d. line_dest h l = Some d \<and> prefix (img_path g) d \<and> \<not> sublist ''/chroot/src/'' d)"
  by (auto simp: sel_line_def selected_def split: option.splits)

lemma umount_all_safe:
  assumes "umount_all h g w = (r, w')"
  shows "filter (\<lambda>l. \<not> (\<exists>d. line_dest h l = Some d \<and> prefix (img_path g) d)) (mountinfo w') =
           filter (\<lambda>l. \<not> (\<exists>d. line_dest h l = Some d \<and> prefix (img_path g) d)) (mountinfo w)"
    and "\<forall>p \<in> set (umounted (new_log w w')).
           selected g p \<and> (\<exists>l \<in> set (mountinfo w). line_dest h l = Some p)"
    and "sorted_wrt (\<lambda>a b. length b \<le> length a) (umounted (new_log w w'))"
    and "set (mountinfo w') \<subseteq> set (mountinfo w)"
proof -
  let ?Q = "\<lambda>l. \<not> (\<exists>d. line_dest h l = Some d \<and> prefix (img_path g) d)"
  from umount_all_split[OF assms] obtain r1 w1 where
    l: "umount_loop h g w = (r1, w1)" and e: "log w' = log w1" "mountinfo w' = mountinfo w1"
    by blast
  from umount_loop_safe[OF l] obtain qs where
    f: "filter ?Q (mountinfo w1) = filter ?Q (mountinfo w)"
    and sb: "set (mountinfo w1) \<subseteq> set (mountinfo w)"
    and q: "log w1 = log w @ qs"
      "\<forall>p \<in> set (umounted qs). selected g p \<and> (\<exists>l \<in> set (mountinfo w). line_dest h l = Some p)"
      "sorted_wrt (\<lambda>a b. length b \<le> length a) (umounted qs)"
    by blast
  from q(1) e(1) have n: "new_log w w' = qs" by (simp add: new_log_def)
  show "filter ?Q (mountinfo w') = filter ?Q (mountinfo w)"
    using f e(2) by simp
  show "\<forall>p \<in> set (umounted (new_log w w')).
           selected g p \<and> (\<exists>l \<in> set (mountinfo w). line_dest h l = Some p)"
    using q(2) n by simp
  show "sorted_wrt (\<lambda>a b. length b \<le> length a) (umounted (new_log w w'))"
    using q(3) n by simp
  show "set (mountinfo w') \<subseteq> set (mountinfo w)"
    using sb e(2) by simp
qed

text \<open>
  The loop of \<open>umount_all\<close> has ended without an error exactly when \<open>umount_all\<close> returns
  or raises AttributeError, the error of deleting the absent attribute.
\<close>

lemma umount_all_loop_done:
  assumes "umount_all h g w = (r, w')" and "r = Inr () \<or> r = Inl AttributeError"
  shows "\<forall>l \<in> set (mountinfo w'). \<not> sel_line h g l"
    and "mset (umounted (new_log w w')) =
           image_mset (\<lambda>l. the (line_dest h l)) (filter_mset (sel_line h g) (mset (mountinfo w)))"
    and "files w' = files w"
proof -
  from umount_all_split[OF assms(1)] obtain r1 w1 where
    l: "umount_loop h g w = (r1, w1)" and e: "log w' = log w1" "mountinfo w' = mountinfo w1"
      "files w' = files w1"
    and c: "case r1 of Inl e \<Rightarrow> r = Inl e \<and> w' = w1
      | Inr u \<Rightarrow> (if mounted w1 then r = Inr () \<and> w' = w1\<lparr>mounted := False\<rparr>
                  else r = Inl AttributeError \<and> w' = w1)"
    by blast
  have r1: "r1 = Inr ()"
  proof (cases r1)
    case (Inl e1)
    with c have "r = Inl e1" by simp
    with assms(2) have "e1 = AttributeError" by auto
    with umount_loop_error[of h g w e1 w1] l Inl show ?thesis by auto
  next
    case (Inr u)
    then show ?thesis by simp
  qed
  from l r1 have lo: "umount_loop h g w = (Inr (), w1)" by simp
  from umount_loop_ok[OF lo] obtain ps where
    k: "\<forall>l \<in> set (mountinfo w1). \<not> sel_line h g l"
       "files w1 = files w"
       "log w1 = log w @ map (\<lambda>p. (umount_cmd p, None, 0)) ps"
       "mset ps = image_mset (\<lambda>l. the (line_dest h l))
                       (filter_mset (sel_line h g) (mset (mountinfo w)))"
    by blast
  from k(3) e(1) have n: "umounted (new_log w w') = ps"
    by (simp add: new_log_def umounted_map)
  show "\<forall>l \<in> set (mountinfo w'). \<not> sel_line h g l" using e(2) k(1) by simp
  show "files w' = files w" using e(3) k(2) by simp
  show "mset (umounted (new_log w w')) =
           image_mset (\<lambda>l. the (line_dest h l)) (filter_mset (sel_line h g) (mset (mountinfo w)))"
    using n k(4) by simp
qed


lemma umount_all_succeeds:
  assumes "\<not> undecodable w" and "\<forall>l \<in> set (mountinfo w). line_fields l \<noteq> None"
    and "\<forall>s \<in> set (pending w). s = 0" and "mounted w"
  shows "\<exists>w'. umount_all h g w = (Inr (), w')"
proof -
  from umount_loop_succeeds[OF assms(1,2,3)] obtain w1 where l: "umount_loop h g w = (Inr (), w1)"
    by blast
  with umount_loop_ok[OF l] assms(4) show ?thesis
    by (simp add: umount_all_def seq_a_def bind_a_def)
qed

text \<open>
  Claim C9, as amended. Whatever way \<open>umount_all\<close> ends, every path it hands to
  sudo umount -l is the resolved mount point of a line of the mount table, starts with
  the string \<open>img_path\<close> and does not contain /chroot/src/; so a path that contains
  /chroot/src/ is never handed to umount. A line that leaves the table has a mount point
  that starts with the string \<open>img_path\<close>; it need not be a selected one, since the lazy
  unmount of a path takes with it what is mounted below. When the loop has ended
  without an error, which is when \<open>umount_all\<close> returns or raises the AttributeError of
  the absent attribute, the unmounts are exactly the selected lines, one unmount for
  each, and no selected line is left; so a line whose path is \<open>img_path\<close> followed by
  any suffix (a sibling such as img\_path-extra as well as a path below it) is
  unmounted unless the path contains /chroot/src/. \<open>sel_line\<close> is the test of line 293
  on the resolved mount point (\<open>sel_line_iff\<close>).
\<close>

theorem umount_all_selection:
  assumes "umount_all h g w = (r, w')"
  shows "(\<forall>p \<in> set (umounted (new_log w w')).
            prefix (img_path g) p \<and> \<not> sublist ''/chroot/src/'' p \<and>
            (\<exists>l \<in> set (mountinfo w). line_dest h l = Some p)) \<and>
         (\<forall>d. sublist ''/chroot/src/'' d \<longrightarrow> d \<notin> set (umounted (new_log w w'))) \<and>
         (\<forall>l \<in> set (mountinfo w). l \<notin> set (mountinfo w') \<longrightarrow>
            (\<exists>d. line_dest h l = Some d \<and> prefix (img_path g) d)) \<and>
         (r = Inr () \<or> r = Inl AttributeError \<longrightarrow>
            mset (umounted (new_log w w')) =
              image_mset (\<lambda>l. the (line_dest h l))
                (filter_mset (sel_line h g) (mset (mountinfo w))) \<and>
            (\<forall>l \<in> set (mountinfo w'). \<not> sel_line h g l) \<and>
            (\<forall>l \<in> set (mountinfo w). \<forall>sfx.
               line_dest h l = Some (img_path g @ sfx) \<and>
               \<not> sublist ''/chroot/src/'' (img_path g @ sfx) \<longrightarrow>
               l \<notin> set (mountinfo w') \<and> img_path g @ sfx \<in> set (umounted (new_log w w'))))"
proof -
  note s = umount_all_safe[OF assms]
  let ?Q = "\<lambda>l. \<not> (\<exists>d. line_dest h l = Some d \<and> prefix (img_path g) d)"
  have a: "\<forall>p \<in> set (umounted (new_log w w')).
            prefix (img_path g) p \<and> \<not> sublist ''/chroot/src/'' p \<and>
            (\<exists>l \<in> set (mountinfo w). line_dest h l = Some p)"
    using s(2) by (simp add: selected_def)
  from a have b: "\<forall>d. sublist ''/chroot/src/'' d \<longrightarrow> d \<notin> set (umounted (new_log w w'))"
    by blast
  have c: "\<forall>l \<in> set (mountinfo w). l \<notin> set (mountinfo w') \<longrightarrow>
            (\<exists>d. line_dest h l = Some d \<and> prefix (img_path g) d)"
  proof (intro ballI impI)
    fix l assume l: "l \<in> set (mountinfo w)" and n: "l \<notin> set (mountinfo w')"
    show "\<exists>d. line_dest h l = Some d \<and> prefix (img_path g) d"
    proof (rule ccontr)
      assume "\<not> (\<exists>d. line_dest h l = Some d \<and> prefix (img_path g) d)"
      with l have "l \<in> set (filter ?Q (mountinfo w))" by simp
      with s(1) have "l \<in> set (filter ?Q (mountinfo w'))" by simp
      with n show False by simp
    qed
  qed
  have d: "mset (umounted (new_log w w')) =
              image_mset (\<lambda>l. the (line_dest h l))
                (filter_mset (sel_line h g) (mset (mountinfo w))) \<and>
            (\<forall>l \<in> set (mountinfo w'). \<not> sel_line h g l) \<and>
            (\<forall>l \<in> set (mountinfo w). \<forall>sfx.
               line_dest h l = Some (img_path g @ sfx) \<and>
               \<not> sublist ''/chroot/src/'' (img_path g @ sfx) \<longrightarrow>
               l \<notin> set (mountinfo w') \<and> img_path g @ sfx \<in> set (umounted (new_log w w')))"
    if r: "r = Inr () \<or> r = Inl AttributeError"
  proof -
    note o = umount_all_loop_done[OF assms r]
    have "l \<notin> set (mountinfo w') \<and> img_path g @ sfx \<in> set (umounted (new_log w w'))"
      if l: "l \<in> set (mountinfo w)" and e: "line_dest h l = Some (img_path g @ sfx)"
        and n: "\<not> sublist ''/chroot/src/'' (img_path g @ sfx)" for l sfx
    proof -
      from e n have sl: "sel_line h g l" by (auto simp: sel_line_iff)
      with o(1) have "l \<notin> set (mountinfo w')" by blast
      moreover from sl l e have "img_path g @ sfx \<in>#
          image_mset (\<lambda>l. the (line_dest h l)) (filter_mset (sel_line h g) (mset (mountinfo w)))"
        by force
      with o(2) have "img_path g @ sfx \<in> set (umounted (new_log w w'))"
        by (metis set_mset_mset)
      ultimately show ?thesis by simp
    qed
    with o(1,2) show ?thesis by blast
  qed
  from a b c d show ?thesis by blast
qed



subsection \<open>The unmount loop on the example tables\<close>

theorem umount_all_selection_witness:
  "umount_all host0 globalsA worldB = (Inr (), worldB_done) \<and>
   umounted (new_log worldB worldB_done) = [''/a/b-extra'', ''/a/b/c'', ''/a/b''] \<and>
   mountinfo_line ''src4'' ''/a/b-extra'' ''none'' ''none'' \<in> set (mountinfo worldB) \<and>
   line_dest host0 (mountinfo_line ''src4'' ''/a/b-extra'' ''none'' ''none'') =
     Some (img_path globalsA @ ''-extra'') \<and>
   \<not> sublist ''/chroot/src/'' (img_path globalsA @ ''-extra'') \<and>
   mountinfo_line ''src4'' ''/a/b-extra'' ''none'' ''none'' \<notin> set (mountinfo worldB_done) \<and>
   img_path globalsA @ ''-extra'' \<in> set (umounted (new_log worldB worldB_done)) \<and>
   umount_all host0 globalsA (worldB\<lparr>mounted := False\<rparr>) = (Inl AttributeError, worldB_done) \<and>
   mountinfo_line ''src4'' ''/a/b-extra'' ''none'' ''none'' \<in> set (mountinfo (worldB\<lparr>mounted := False\<rparr>)) \<and>
   img_path globalsA @ ''-extra'' \<in> set (umounted (new_log (worldB\<lparr>mounted := False\<rparr>) worldB_done))"
proof -
  let ?l = "mountinfo_line ''src4'' ''/a/b-extra'' ''none'' ''none''"
  have ev: "umount_all host0 globalsA worldB = (Inr (), worldB_done)"
    by code_simp
  have e2: "umounted (new_log worldB worldB_done) = [''/a/b-extra'', ''/a/b/c'', ''/a/b'']"
    by code_simp
  have h1: "?l \<in> set (mountinfo worldB)"
    by code_simp
  have h2: "line_dest host0 ?l = Some (img_path globalsA @ ''-extra'')"
    by code_simp
  have h3: "\<not> sublist ''/chroot/src/'' (img_path globalsA @ ''-extra'')"
    by code_simp
  have e3: "umount_all host0 globalsA (worldB\<lparr>mounted := False\<rparr>) = (Inl AttributeError, worldB_done)"
    by code_simp
  have h4: "?l \<in> set (mountinfo (worldB\<lparr>mounted := False\<rparr>))"
    using h1 by simp
  have r1: "(Inr () :: exc + unit) = Inr () \<or> (Inr () :: exc + unit) = Inl AttributeError"
    by simp
  have r2: "(Inl AttributeError :: exc + unit) = Inr () \<or>
      (Inl AttributeError :: exc + unit) = Inl AttributeError"
    by simp
  note t1 = umount_all_selection[OF ev, THEN conjunct2, THEN conjunct2, THEN conjunct2, THEN mp,
      OF r1, THEN conjunct2, THEN conjunct2, THEN bspec, OF h1, THEN spec, of "''-extra''",
      THEN mp, OF conjI, OF h2 h3]
  note t2 = umount_all_selection[OF e3, THEN conjunct2, THEN conjunct2, THEN conjunct2, THEN mp,
      OF r2, THEN conjunct2, THEN conjunct2, THEN bspec, OF h4, THEN spec, of "''-extra''",
      THEN mp, OF conjI, OF h2 h3]
  from t1 have c1: "?l \<notin> set (mountinfo worldB_done)" by (rule conjunct1)
  from t1 have c2: "img_path globalsA @ ''-extra'' \<in> set (umounted (new_log worldB worldB_done))"
    by (rule conjunct2)
  from t2 have c3: "img_path globalsA @ ''-extra'' \<in>
      set (umounted (new_log (worldB\<lparr>mounted := False\<rparr>) worldB_done))"
    by (rule conjunct2)
  from ev e2 h1 h2 h3 c1 c2 e3 h4 c3 show ?thesis by (intro conjI)
qed

theorem umount_all_selection_counterexample:
  "umount_all host0 globalsA worldB = (Inr (), worldB_done) \<and>
   line_dest host0 (mountinfo_line ''src5'' ''/a/b/chroot/src/y'' ''none'' ''none'') =
     Some ''/a/b/chroot/src/y'' \<and>
   sublist ''/chroot/src/'' ''/a/b/chroot/src/y'' \<and>
   mountinfo_line ''src5'' ''/a/b/chroot/src/y'' ''none'' ''none'' \<in> set (mountinfo worldB) \<and>
   mountinfo_line ''src5'' ''/a/b/chroot/src/y'' ''none'' ''none'' \<notin> set (mountinfo worldB_done) \<and>
   ''/a/b/chroot/src/y'' \<notin> set (umounted (new_log worldB worldB_done)) \<and>
   mountinfo worldB_done = [mountinfo_line ''src3'' ''/x'' ''none'' ''none'']"
  by code_simp





subsection \<open>C8: what the mount table reader returns\<close>


















subsection \<open>C7: the lock of a session\<close>

lemma lock_name_inj:
  assumes "a1 \<in> set [''64'', ''32'']" and "a2 \<in> set [''64'', ''32'']"
  shows "lock_name a1 d1 = lock_name a2 d2 \<longleftrightarrow> a1 = a2 \<and> d1 = d2"
proof -
  from assms have "a1 = ''64'' \<or> a1 = ''32''" "a2 = ''64'' \<or> a2 = ''32''" by simp_all
  then show ?thesis
    by (elim disjE) (simp_all add: lock_name_def)
qed

lemma select_arch_arch:
  "arch g \<in> set [''64'', ''32''] \<Longrightarrow> arch (fst (select_arch g args)) \<in> set [''64'', ''32'']"
  unfolding select_arch_def by (cases "length args > 1 \<and> args ! 1 \<in> set [''64'', ''32'']") simp_all

lemma single_instance_held:
  "single_instance n locks = (True, locks1) \<Longrightarrow> locks1 = insert n locks \<and> n \<notin> locks"
  by (simp add: single_instance_def split: if_splits)

text \<open>
  Claim C7. For architectures among 64 and 32, the only values \<open>main\<close> ever gives to
  \<open>arch\<close>, two sessions compute the same lock name exactly when they have the same
  architecture and the same working directory. After a session has acquired its lock, a
  session with the same architecture and directory fails to acquire it, and \<open>main\<close>
  raises SystemExit with its message; a session that differs in the architecture or in
  the directory, and whose name nobody else holds, acquires its lock as well.
\<close>

theorem lock_keyed_by_arch_and_cwd:
  assumes "arch g1 \<in> set [''64'', ''32'']" and "arch g2 \<in> set [''64'', ''32'']"
  shows "(lock_name (arch g1) (h_cwd h1) = lock_name (arch g2) (h_cwd h2) \<longleftrightarrow>
            arch g1 = arch g2 \<and> h_cwd h1 = h_cwd h2) \<and>
         (singleinstance h1 g1 locks = (True, locks1) \<longrightarrow>
            (arch g2 = arch g1 \<and> h_cwd h2 = h_cwd h1 \<longrightarrow>
               singleinstance h2 g2 locks1 = (False, locks1)) \<and>
            ((arch g2 \<noteq> arch g1 \<or> h_cwd h2 \<noteq> h_cwd h1) \<and>
             lock_name (arch g2) (h_cwd h2) \<notin> locks \<longrightarrow>
               fst (singleinstance h2 g2 locks1) = True)) \<and>
         (fst (singleinstance h1 (fst (select_arch g1 args)) locks) = False \<longrightarrow>
            fst (main_lock h1 g1 args locks) =
              Inl (SystemExitMsg ''Another instance of the linux container is running'')) \<and>
         arch (fst (select_arch g1 args)) \<in> set [''64'', ''32'']"
proof (intro conjI impI)
  define n1 where "n1 = lock_name (arch g1) (h_cwd h1)"
  define n2 where "n2 = lock_name (arch g2) (h_cwd h2)"
  have inj: "n1 = n2 \<longleftrightarrow> arch g1 = arch g2 \<and> h_cwd h1 = h_cwd h2"
    unfolding n1_def n2_def by (rule lock_name_inj[OF assms])
  then show "lock_name (arch g1) (h_cwd h1) = lock_name (arch g2) (h_cwd h2) \<longleftrightarrow>
            arch g1 = arch g2 \<and> h_cwd h1 = h_cwd h2"
    by (simp add: n1_def n2_def)
  show "arch (fst (select_arch g1 args)) \<in> set [''64'', ''32'']"
    by (rule select_arch_arch[OF assms(1)])
  {
    assume a: "singleinstance h1 g1 locks = (True, locks1)"
    then have l1: "locks1 = insert n1 locks"
      using single_instance_held[of n1 locks locks1] by (simp add: singleinstance_def n1_def)
    {
      assume "arch g2 = arch g1 \<and> h_cwd h2 = h_cwd h1"
      with inj have "n2 = n1" by simp
      with l1 have "single_instance n2 locks1 = (False, locks1)"
        by (simp add: single_instance_def)
      then show "singleinstance h2 g2 locks1 = (False, locks1)"
        by (simp add: singleinstance_def n2_def)
    }
    {
      assume b: "(arch g2 \<noteq> arch g1 \<or> h_cwd h2 \<noteq> h_cwd h1) \<and>
             lock_name (arch g2) (h_cwd h2) \<notin> locks"
      with inj have "n2 \<noteq> n1" by auto
      moreover from b have "n2 \<notin> locks" by (simp add: n2_def)
      ultimately have "n2 \<notin> locks1" using l1 by simp
      then have "fst (single_instance n2 locks1) = True"
        by (simp add: single_instance_def)
      then show "fst (singleinstance h2 g2 locks1) = True"
        by (simp add: singleinstance_def n2_def)
    }
  }
  {
    assume "fst (singleinstance h1 (fst (select_arch g1 args)) locks) = False"
    then show "fst (main_lock h1 g1 args locks) =
              Inl (SystemExitMsg ''Another instance of the linux container is running'')"
      by (cases "select_arch g1 args"; cases "singleinstance h1 (fst (select_arch g1 args)) locks")
        (simp add: main_lock_def)
  }
qed

theorem lock_keyed_by_arch_and_cwd_witness:
  "arch globals0 \<in> set [''64'', ''32''] \<and>
   singleinstance host0 globals0 {} = (True, {lock_name ''64'' ''/w''}) \<and>
   singleinstance host0 globals0 {lock_name ''64'' ''/w''} = (False, {lock_name ''64'' ''/w''}) \<and>
   fst (singleinstance host0 (fst (select_arch globals0 [''bypy'', ''64'', ''shell'']))
          {lock_name ''64'' ''/w''}) = False \<and>
   fst (main_lock host0 globals0 [''bypy'', ''64'', ''shell''] {lock_name ''64'' ''/w''}) =
     Inl (SystemExitMsg ''Another instance of the linux container is running'') \<and>
   arch (globals0\<lparr>arch := ''32''\<rparr>) \<noteq> arch globals0 \<and>
   fst (singleinstance host0 (globals0\<lparr>arch := ''32''\<rparr>) {lock_name ''64'' ''/w''}) = True \<and>
   h_cwd host1 \<noteq> h_cwd host0 \<and>
   fst (singleinstance host1 globals0 {lock_name ''64'' ''/w''}) = True"
proof -
  have e1: "arch globals0 \<in> set [''64'', ''32'']" by code_simp
  have e1': "arch (globals0\<lparr>arch := ''32''\<rparr>) \<in> set [''64'', ''32'']" by simp
  have e2: "singleinstance host0 globals0 {} = (True, {lock_name ''64'' ''/w''})" by code_simp
  have e3: "fst (singleinstance host0 (fst (select_arch globals0 [''bypy'', ''64'', ''shell'']))
          {lock_name ''64'' ''/w''}) = False" by code_simp
  have e4: "arch (globals0\<lparr>arch := ''32''\<rparr>) \<noteq> arch globals0" by code_simp
  have e5: "h_cwd host1 \<noteq> h_cwd host0" by code_simp
  have e6: "lock_name (arch (globals0\<lparr>arch := ''32''\<rparr>)) (h_cwd host0) \<notin> {}"
    "lock_name (arch globals0) (h_cwd host1) \<notin> {}" by simp_all
  note t1 = lock_keyed_by_arch_and_cwd[OF e1 e1, of host0 host0 "{}" "{lock_name ''64'' ''/w''}"
      "[''bypy'', ''64'', ''shell'']"]
  note t2 = lock_keyed_by_arch_and_cwd[OF e1 e1', of host0 host0 "{}" "{lock_name ''64'' ''/w''}" "[]"]
  note t3 = lock_keyed_by_arch_and_cwd[OF e1 e1, of host0 host1 "{}" "{lock_name ''64'' ''/w''}" "[]"]
  from t1 e2 have a: "singleinstance host0 globals0 {lock_name ''64'' ''/w''} =
      (False, {lock_name ''64'' ''/w''})" by blast
  note t4 = lock_keyed_by_arch_and_cwd[OF e1 e1, of host0 host0 "{lock_name ''64'' ''/w''}" "{}"
      "[''bypy'', ''64'', ''shell'']"]
  from t4 e3 have b: "fst (main_lock host0 globals0 [''bypy'', ''64'', ''shell''] {lock_name ''64'' ''/w''}) =
     Inl (SystemExitMsg ''Another instance of the linux container is running'')" by blast
  from t2 e2 e4 e6(1) have c: "fst (singleinstance host0 (globals0\<lparr>arch := ''32''\<rparr>)
      {lock_name ''64'' ''/w''}) = True" by blast
  from t3 e2 e5 e6(2) have d: "fst (singleinstance host1 globals0 {lock_name ''64'' ''/w''}) = True"
    by blast
  from e1 e2 a e3 b e4 c e5 d show ?thesis by (intro conjI)
qed

subsection \<open>C2 and C1: mount\_all twice, and a provisioning command that fails\<close>

lemma mount_present:
  "path_join (img_path g) (lstrip_slash dest) \<in> set (map fst current_mounts) \<Longrightarrow>
   mount h g current_mounts src dest readonly w = (Inr (), w)"
  by (simp add: mount_def Let_def when_a_def return_a_def)

lemma mount_all_once: "mount_all host0 globals0 tdir0 worldM = (Inr (), worldM1)"
  by code_simp

lemma mount_all_again:
  "fst (mount_all host0 globals0 tdir0 worldM1) = Inr ()"
  "mountinfo (snd (mount_all host0 globals0 tdir0 worldM1)) = mountinfo worldM1 @ special_mounts"
  by code_simp+

text \<open>
  Claim C2 fails on the code at this input. On the host of the examples, with the image
  mounted, one call of \<open>mount_all\<close> gives \<open>worldM1\<close>, whose mount table has the six bind
  mounts and the proc, sysfs and /dev/shm mounts once each. A second call with the same
  arguments skips the six bind mounts, which \<open>mount\<close> finds in the table, and mounts
  proc, sysfs and /dev/shm again (lines 280 to 285 do not look at the table): the table
  after two calls is the table after one call followed by these three lines a second
  time.
\<close>

theorem mount_all_twice_duplicates:
  "mount_all host0 globals0 tdir0 worldM = (Inr (), worldM1) \<and>
   fst (seq_a (mount_all host0 globals0 tdir0) (mount_all host0 globals0 tdir0) worldM) = Inr () \<and>
   mountinfo (snd (seq_a (mount_all host0 globals0 tdir0) (mount_all host0 globals0 tdir0) worldM))
     = mountinfo worldM1 @ special_mounts \<and>
   mountinfo (snd (seq_a (mount_all host0 globals0 tdir0) (mount_all host0 globals0 tdir0) worldM))
     \<noteq> mountinfo (snd (mount_all host0 globals0 tdir0 worldM)) \<and>
   set special_mounts \<subseteq> set (mountinfo worldM1)"
proof -
  have s: "seq_a (mount_all host0 globals0 tdir0) (mount_all host0 globals0 tdir0) worldM =
      mount_all host0 globals0 tdir0 worldM1"
    by (simp add: seq_a_def bind_a_def mount_all_once)
  have ne: "special_mounts \<noteq> []" by (simp add: special_mounts_def)
  have sub: "set special_mounts \<subseteq> set (mountinfo worldM1)"
    by (auto simp: worldM1_def)
  show ?thesis
    using mount_all_once mount_all_again ne sub by (simp add: s)
qed

lemma build_container_SystemExit:
  assumes "conf_image g = Some url"
    and "build_container_inner h g url w = (Inl (SystemExit n), w1)"
  shows "build_container h g w = (Inl (SystemExit n), w1)"
  using assms by (simp add: build_container_def)

lemma build_container_Exception:
  assumes "conf_image g = Some url"
    and "build_container_inner h g url w = (Inl e, w1)"
    and "is_Exception e" and "img_store_path g \<in> files w1"
  shows "\<exists>w2. build_container h g w = (Inl e, w2) \<and> img_store_path g \<notin> files w2 \<and>
           img_store_path g @ ''.failed'' \<in> files w2 \<and> \<not> check_for_image g w2"
proof -
  let ?f = "img_store_path g @ ''.failed''"
  have ne: "?f \<noteq> img_store_path g" by simp
  define wa where "wa = (if ?f \<in> files w1 then w1\<lparr>files := files w1 - {?f}\<rparr> else w1)"
  define w2 where "w2 = wa\<lparr>files := insert ?f (files wa - {img_store_path g})\<rparr>"
  have a: "img_store_path g \<in> files wa"
    using assms(4) ne by (auto simp: wa_def)
  have "build_container h g w = (Inl e, w2)"
    using assms a ne
    by (simp add: build_container_def Let_def seq_a_def bind_a_def when_a_def return_a_def
        raise_a_def os_remove_def os_rename_def wa_def w2_def)
  moreover have "img_store_path g \<notin> files w2" "?f \<in> files w2"
    using ne by (simp_all add: w2_def)
  ultimately show ?thesis by (auto simp: check_for_image_def)
qed

text \<open>
  Claim C1 fails on the code at this input. The first command run in the chroot,
  groupadd, exits with status 9 after truncate, mkfs.ext4, the mount and tar have
  succeeded. \<open>chroot\<close> raises SystemExit 9, which is not an instance of Exception, so
  the handler of \<open>build_container\<close> does not run: the image file is still at its path,
  no .failed file exists and \<open>check_for_image\<close> is true. (For an exception that is an
  instance of Exception the handler does rename the file: \<open>build_container_Exception\<close>.)
\<close>

theorem build_container_failed_command:
  "fst (build_container host0 globals0 world_fail) = Inl (SystemExit 9) \<and>
   children (log (snd (build_container host0 globals0 world_fail))) =
     [child_of host0 globals0 True False [''groupadd'', ''-f'', ''-g'', ''1000'', ''crusers''] 9] \<and>
   files (snd (build_container host0 globals0 world_fail)) =
     {''/tmp/ubuntu-jammy-core-cloudimg-amd64-root.tar.gz'', img_path globals0,
      img_store_path globals0} \<and>
   check_for_image globals0 (snd (build_container host0 globals0 world_fail))"
  by code_simp

end
